theory Spec2Isabelle
  imports Main "HOL-Library.Sublist" "HOL-Library.AList"
begin

section \<open>The JavaScript string operations used by \<open>index.js\<close>\<close>

text \<open>
  \<open>index.js\<close> substitutes the placeholder twice, with two different library calls:
  \<^item> line 98, the file name: \<^verbatim>\<open>file.replace(placeholder, componentName)\<close>, the
    pattern is a string;
  \<^item> line 102, the content: \<^verbatim>\<open>templateContent.replace(new RegExp(placeholder, 'g'), componentName)\<close>,
    the pattern is a global regular expression compiled from the placeholder.
  Both calls pass the component name as the replacement \<^emph>\<open>string\<close>, which ECMAScript
  expands with \<open>GetSubstitution\<close>. Strings are lists of characters (one \<open>char\<close> per
  code unit).
\<close>

text \<open>
  \<open>GetSubstitution\<close> for a match without capture groups: \<open>$$\<close> is a dollar sign,
  \<open>$&\<close> the matched text, \<open>$`\<close> the text before the match, \<open>$'\<close> the text after
  it; every other character, also a dollar sign followed by anything else, stands for itself.
\<close>

fun GetSubstitution :: "string \<Rightarrow> string \<Rightarrow> nat \<Rightarrow> string \<Rightarrow> string" where
  "GetSubstitution matched str position [] = []"
| "GetSubstitution matched str position [c] = [c]"
| "GetSubstitution matched str position (c # d # rest) =
     (if c = CHR ''$'' then
        (if d = CHR ''$'' then CHR ''$'' # GetSubstitution matched str position rest
         else if d = CHR ''&'' then matched @ GetSubstitution matched str position rest
         else if d = CHR 0x60 then take position str @ GetSubstitution matched str position rest
         else if d = CHR 0x27 then
           drop (position + length matched) str @ GetSubstitution matched str position rest
         else c # GetSubstitution matched str position (d # rest))
      else c # GetSubstitution matched str position (d # rest))"

text \<open>\<open>String.prototype.indexOf\<close>: the position of the first occurrence, if any.\<close>

fun indexOf :: "string \<Rightarrow> string \<Rightarrow> nat option" where
  "indexOf [] searchString = (if searchString = [] then Some 0 else None)"
| "indexOf (c # cs) searchString =
     (if prefix searchString (c # cs) then Some 0
      else map_option Suc (indexOf cs searchString))"

text \<open>
  \<open>String.prototype.replace\<close> with a string pattern: only the first occurrence is
  replaced, and the pattern is taken literally.
\<close>

definition String_replace :: "string \<Rightarrow> string \<Rightarrow> string \<Rightarrow> string" where
  "String_replace str searchString replaceValue =
     (case indexOf str searchString of
        None \<Rightarrow> str
      | Some pos \<Rightarrow>
          take pos str @ GetSubstitution searchString str pos replaceValue
            @ drop (pos + length searchString) str)"

text \<open>
  \<open>new RegExp(placeholder, 'g')\<close>. The pattern language is modelled for the patterns
  made of ordinary characters and the dot: an ordinary character matches itself, the dot
  matches any character but a line terminator. A pattern that uses any other syntax
  character of the pattern grammar (anchors, quantifiers, groups, classes, alternation,
  escapes) is outside the modelled fragment, and \<open>RegExp_new\<close> returns \<open>None\<close> for it.
\<close>

datatype atom = Lit char | AnyChar

definition SyntaxCharacter :: "char \<Rightarrow> bool" where
  "SyntaxCharacter c \<longleftrightarrow>
     c \<in> set [CHR 0x5E, CHR 0x24, CHR 0x5C, CHR 0x2E, CHR 0x2A, CHR 0x2B, CHR 0x3F,
               CHR 0x28, CHR 0x29, CHR 0x5B, CHR 0x5D, CHR 0x7B, CHR 0x7D, CHR 0x7C]"

fun RegExp_new :: "string \<Rightarrow> atom list option" where
  "RegExp_new [] = Some []"
| "RegExp_new (c # cs) =
     (if c = CHR 0x2E then map_option ((#) AnyChar) (RegExp_new cs)
      else if SyntaxCharacter c then None
      else map_option ((#) (Lit c)) (RegExp_new cs))"

fun atom_matches :: "atom \<Rightarrow> char \<Rightarrow> bool" where
  "atom_matches (Lit c) x = (x = c)"
| "atom_matches AnyChar x = (x \<noteq> CHR 0x0A \<and> x \<noteq> CHR 0x0D)"

fun match_here :: "atom list \<Rightarrow> string \<Rightarrow> bool" where
  "match_here [] s = True"
| "match_here (a # as) [] = False"
| "match_here (a # as) (x # xs) = (atom_matches a x \<and> match_here as xs)"

text \<open>
  \<open>RegExp.prototype[Symbol.replace]\<close> for a global expression \<open>r\<close> of the fragment,
  scanning \<open>S\<close> from \<open>lastIndex\<close>: where \<open>r\<close> matches, the expansion of the
  replacement is emitted and the scan goes on after the match (one character further when
  the match is empty, that character being copied); where it does not, the character is
  copied.
\<close>

function RegExp_replace_from :: "atom list \<Rightarrow> string \<Rightarrow> string \<Rightarrow> nat \<Rightarrow> string" where
  "RegExp_replace_from r replaceValue S lastIndex =
     (if lastIndex > length S then []
      else if match_here r (drop lastIndex S) then
        GetSubstitution (take (length r) (drop lastIndex S)) S lastIndex replaceValue
          @ (if r = [] then
               take 1 (drop lastIndex S) @ RegExp_replace_from r replaceValue S (lastIndex + 1)
             else RegExp_replace_from r replaceValue S (lastIndex + length r))
      else take 1 (drop lastIndex S) @ RegExp_replace_from r replaceValue S (lastIndex + 1))"
  by pat_completeness auto
termination
proof (relation "measure (\<lambda>(r, replaceValue, S, lastIndex). Suc (length S) - lastIndex)")
  fix r :: "atom list" and S :: string and lastIndex :: nat
  assume "\<not> length S < lastIndex" and "r \<noteq> []"
  then obtain n where "length r = Suc n" and "lastIndex \<le> length S"
    by (cases r) simp_all
  then show "((r, replaceValue, S, lastIndex + length r), (r, replaceValue, S, lastIndex))
      \<in> measure (\<lambda>(r, replaceValue, S, lastIndex). Suc (length S) - lastIndex)"
    for replaceValue :: string
    by simp
qed auto

declare RegExp_replace_from.simps [simp del]

definition RegExp_replace :: "string \<Rightarrow> atom list \<Rightarrow> string \<Rightarrow> string" where
  "RegExp_replace S r replaceValue = RegExp_replace_from r replaceValue S 0"

section \<open>Paths and the file system\<close>

text \<open>
  A path is the list of its segments from the root. \<open>path.join\<close> concatenates its
  arguments with the separator and normalises the result; a resolved name is the
  normalised path together with the flag of a trailing separator. The first argument of
  every \<open>path.join\<close> of the program is an absolute, already normalised name
  (\<open>__dirname\<close>, or the result of an earlier join). Separators are POSIX.
\<close>

type_synonym path = "string list"
type_synonym pathname = "path \<times> bool"

fun segments :: "string \<Rightarrow> string list" where
  "segments [] = [[]]"
| "segments (c # cs) =
     (if c = CHR ''/'' then [] # segments cs
      else (case segments cs of [] \<Rightarrow> [[c]] | s # ss \<Rightarrow> (c # s) # ss))"

fun normalizeString :: "path \<Rightarrow> string list \<Rightarrow> path" where
  "normalizeString res [] = res"
| "normalizeString res (s # ss) =
     (if s = [] \<or> s = ''.'' then normalizeString res ss
      else if s = ''..'' then normalizeString (butlast res) ss
      else normalizeString (res @ [s]) ss)"

definition path_join :: "pathname \<Rightarrow> string list \<Rightarrow> pathname" where
  "path_join base args =
     (let given = filter (\<lambda>a. a \<noteq> []) args
      in (normalizeString (fst base) (concat (map segments given)),
          if given = [] then snd base else last (last given) = CHR ''/''))"

datatype node = File string | Dir

text \<open>
  The file system is an association list from paths to nodes, in creation order (the order
  in which \<open>readdirSync\<close> lists a directory); the root is a directory and is not stored.
  A file holds its text as \<open>readFileSync\<close> decodes it. Permissions, links, limits on
  the length of names and on space are not modelled: an operation fails only for the
  reasons written out in its definition.
\<close>

type_synonym filesystem = "(path \<times> node) list"

datatype errno = ENOENT | ENOTDIR | EISDIR | EEXIST

definition lookup :: "filesystem \<Rightarrow> path \<Rightarrow> node option" where
  "lookup fs p = (if p = [] then Some Dir else map_of fs p)"

definition is_file :: "node option \<Rightarrow> bool" where
  "is_file n = (case n of Some (File c) \<Rightarrow> True | _ \<Rightarrow> False)"

definition absent_errno :: "filesystem \<Rightarrow> path \<Rightarrow> errno" where
  "absent_errno fs p = (if list_ex (\<lambda>q. is_file (lookup fs q)) (prefixes p) then ENOTDIR else ENOENT)"

definition existsSync :: "filesystem \<Rightarrow> pathname \<Rightarrow> bool" where
  "existsSync fs pn =
     (case lookup fs (fst pn) of
        None \<Rightarrow> False
      | Some Dir \<Rightarrow> True
      | Some (File c) \<Rightarrow> \<not> snd pn)"

definition readFileSync :: "filesystem \<Rightarrow> pathname \<Rightarrow> errno + string" where
  "readFileSync fs pn =
     (case lookup fs (fst pn) of
        None \<Rightarrow> Inl (absent_errno fs (fst pn))
      | Some Dir \<Rightarrow> Inl EISDIR
      | Some (File c) \<Rightarrow> if snd pn then Inl ENOTDIR else Inr c)"

text \<open>\<open>mkdirSync(p, {recursive: true})\<close>: every missing directory along \<open>p\<close> is created.\<close>

fun mkdir_p :: "filesystem \<Rightarrow> path \<Rightarrow> string list \<Rightarrow> errno + filesystem" where
  "mkdir_p fs cur [] = Inr fs"
| "mkdir_p fs cur (s # ss) =
     (case lookup fs (cur @ [s]) of
        None \<Rightarrow> mkdir_p (fs @ [(cur @ [s], Dir)]) (cur @ [s]) ss
      | Some Dir \<Rightarrow> mkdir_p fs (cur @ [s]) ss
      | Some (File c) \<Rightarrow> Inl (if ss = [] then EEXIST else ENOTDIR))"

definition mkdirSync :: "filesystem \<Rightarrow> pathname \<Rightarrow> errno + filesystem" where
  "mkdirSync fs pn = mkdir_p fs [] (fst pn)"

definition children :: "filesystem \<Rightarrow> path \<Rightarrow> string list" where
  "children fs p = map (last \<circ> fst) (filter (\<lambda>(q, n). q \<noteq> [] \<and> butlast q = p) fs)"

definition readdirSync :: "filesystem \<Rightarrow> pathname \<Rightarrow> errno + string list" where
  "readdirSync fs pn =
     (case lookup fs (fst pn) of
        None \<Rightarrow> Inl (absent_errno fs (fst pn))
      | Some (File c) \<Rightarrow> Inl ENOTDIR
      | Some Dir \<Rightarrow> Inr (children fs (fst pn)))"

text \<open>
  \<open>writeFileSync\<close> creates the file or replaces its content; it fails on a directory,
  on a name with a trailing separator and where the parent is not a directory.
\<close>

definition writeFileSync :: "filesystem \<Rightarrow> pathname \<Rightarrow> string \<Rightarrow> errno + filesystem" where
  "writeFileSync fs pn content =
     (case lookup fs (fst pn) of
        Some Dir \<Rightarrow> Inl EISDIR
      | Some (File c) \<Rightarrow>
          if snd pn then Inl ENOTDIR else Inr (AList.update (fst pn) (File content) fs)
      | None \<Rightarrow>
          (case lookup fs (butlast (fst pn)) of
             None \<Rightarrow> Inl (absent_errno fs (fst pn))
           | Some (File c) \<Rightarrow> Inl ENOTDIR
           | Some Dir \<Rightarrow>
               if snd pn then Inl EISDIR else Inr (AList.update (fst pn) (File content) fs)))"

section \<open>The program\<close>

text \<open>
  The parsed configuration: the three fields \<open>index.js\<close> reads, as strings. \<open>JSON.parse\<close>
  is a parameter of the model: \<open>None\<close> is a thrown \<open>SyntaxError\<close>, and a document
  that parses is taken to be an object with these three string fields. \<open>__dirname\<close>
  and the working directory are given as paths.
\<close>

record config =
  COMPONENTS_DIR :: string
  TEMPLATE_DIR :: string
  COMPONENT_NAME_PLACEHOLDER :: string

record env =
  dirname :: path
  cwd :: path

datatype exn = SystemError errno | SyntaxError

datatype message =
    Prompt
  | ConfigFileNotFound
  | ErrorReadingConfig exn
  | CreatedSuccessfully string

record world =
  files :: filesystem
  console :: "message list"

text \<open>
  How a run ends: it ran to the end, \<open>process.exit\<close> was called, an exception was not
  caught, or the placeholder is a pattern outside the modelled fragment.
\<close>

datatype status = Completed | Exited nat | Uncaught exn | Unmodelled

text \<open>\<open>readConfig\<close> (lines 19-48): \<open>Inl\<close> is the world at \<open>process.exit(1)\<close>.\<close>

definition configPath :: "env \<Rightarrow> pathname" where
  "configPath e = (cwd e @ [''cg.config.json''], False)"

definition readConfig :: "env \<Rightarrow> (string \<Rightarrow> config option) \<Rightarrow> world \<Rightarrow> world + config" where
  "readConfig e JSON_parse w =
     (if \<not> existsSync (files w) (configPath e) then
        Inl (w\<lparr>console := console w @ [ConfigFileNotFound]\<rparr>)
      else
        (case readFileSync (files w) (configPath e) of
           Inl err \<Rightarrow> Inl (w\<lparr>console := console w @ [ErrorReadingConfig (SystemError err)]\<rparr>)
         | Inr configFile \<Rightarrow>
             (case JSON_parse configFile of
                None \<Rightarrow> Inl (w\<lparr>console := console w @ [ErrorReadingConfig SyntaxError]\<rparr>)
              | Some config \<Rightarrow> Inr config)))"

text \<open>The constants of \<open>createComponent\<close> (lines 88-90, 97-98, 102).\<close>

definition componentDir :: "env \<Rightarrow> config \<Rightarrow> string \<Rightarrow> pathname" where
  "componentDir e config componentName =
     path_join (dirname e, False) [COMPONENTS_DIR config, componentName]"

definition templateDir :: "env \<Rightarrow> config \<Rightarrow> pathname" where
  "templateDir e config = path_join (dirname e, False) [TEMPLATE_DIR config]"

definition templateFilePath :: "env \<Rightarrow> config \<Rightarrow> string \<Rightarrow> pathname" where
  "templateFilePath e config file = path_join (templateDir e config) [file]"

definition componentFileName :: "config \<Rightarrow> string \<Rightarrow> string \<Rightarrow> string" where
  "componentFileName config componentName file =
     String_replace file (COMPONENT_NAME_PLACEHOLDER config) componentName"

definition componentFilePath :: "env \<Rightarrow> config \<Rightarrow> string \<Rightarrow> string \<Rightarrow> pathname" where
  "componentFilePath e config componentName file =
     path_join (componentDir e config componentName)
       [componentFileName config componentName file]"

definition componentContent :: "config \<Rightarrow> string \<Rightarrow> string \<Rightarrow> string option" where
  "componentContent config componentName templateContent =
     map_option (\<lambda>r. RegExp_replace templateContent r componentName)
       (RegExp_new (COMPONENT_NAME_PLACEHOLDER config))"

text \<open>The body of \<open>templateFiles.forEach\<close> (lines 96-105), run over the listed entries.\<close>

fun forEach :: "env \<Rightarrow> config \<Rightarrow> string \<Rightarrow> string list \<Rightarrow> filesystem \<Rightarrow> status \<times> filesystem" where
  "forEach e config componentName [] fs = (Completed, fs)"
| "forEach e config componentName (file # rest) fs =
     (case readFileSync fs (templateFilePath e config file) of
        Inl err \<Rightarrow> (Uncaught (SystemError err), fs)
      | Inr templateContent \<Rightarrow>
          (case componentContent config componentName templateContent of
             None \<Rightarrow> (Unmodelled, fs)
           | Some content \<Rightarrow>
               (case writeFileSync fs (componentFilePath e config componentName file) content of
                  Inl err \<Rightarrow> (Uncaught (SystemError err), fs)
                | Inr fs' \<Rightarrow> forEach e config componentName rest fs')))"

text \<open>\<open>createComponent\<close> (lines 85-108).\<close>

definition createComponent ::
  "env \<Rightarrow> (string \<Rightarrow> config option) \<Rightarrow> string \<Rightarrow> world \<Rightarrow> status \<times> world" where
  "createComponent e JSON_parse componentName w =
     (case readConfig e JSON_parse w of
        Inl w' \<Rightarrow> (Exited 1, w')
      | Inr config \<Rightarrow>
          (case mkdirSync (files w) (componentDir e config componentName) of
             Inl err \<Rightarrow> (Uncaught (SystemError err), w)
           | Inr fs1 \<Rightarrow>
               (case readdirSync fs1 (templateDir e config) of
                  Inl err \<Rightarrow> (Uncaught (SystemError err), w\<lparr>files := fs1\<rparr>)
                | Inr templateFiles \<Rightarrow>
                    (case forEach e config componentName templateFiles fs1 of
                       (st, fs2) \<Rightarrow>
                         if st = Completed then
                           (Completed,
                            w\<lparr>files := fs2,
                              console := console w @ [CreatedSuccessfully componentName]\<rparr>)
                         else (st, w\<lparr>files := fs2\<rparr>)))))"

text \<open>The program (lines 116-119): one prompt, one call of \<open>createComponent\<close>.\<close>

definition main :: "env \<Rightarrow> (string \<Rightarrow> config option) \<Rightarrow> string \<Rightarrow> world \<Rightarrow> status \<times> world" where
  "main e JSON_parse input w =
     createComponent e JSON_parse input (w\<lparr>console := console w @ [Prompt]\<rparr>)"

section \<open>The specification's notions\<close>

text \<open>
  What the specification means by "every literal occurrence of the placeholder replaced by
  the component name": the occurrences are found from left to right and do not overlap;
  the placeholder and the name are plain text.
\<close>

function replace_every :: "string \<Rightarrow> string \<Rightarrow> string \<Rightarrow> string" where
  "replace_every placeholder N [] = []"
| "replace_every placeholder N (c # cs) =
     (if placeholder \<noteq> [] \<and> prefix placeholder (c # cs) then
        N @ replace_every placeholder N (drop (length placeholder) (c # cs))
      else c # replace_every placeholder N cs)"
  by pat_completeness auto
termination
  by (relation "measure (\<lambda>(placeholder, N, s). length s)") auto

text \<open>The name inserted before every character of a text and once at its end.\<close>

definition inserted_everywhere :: "string \<Rightarrow> string \<Rightarrow> string" where
  "inserted_everywhere N s = concat (map (\<lambda>c. N @ [c]) s) @ N"

text \<open>
  A replacement string that \<open>GetSubstitution\<close> leaves as it is: no dollar sign is
  followed by a dollar sign, an ampersand, a backquote or a quote.
\<close>

fun plain_replacement :: "string \<Rightarrow> bool" where
  "plain_replacement [] = True"
| "plain_replacement [c] = True"
| "plain_replacement (c # d # rest) =
     ((c \<noteq> CHR ''$'' \<or> (d \<noteq> CHR ''$'' \<and> d \<noteq> CHR ''&'' \<and> d \<noteq> CHR 0x60 \<and> d \<noteq> CHR 0x27))
      \<and> plain_replacement (d # rest))"

section \<open>Well-formed file systems and the paths a run writes\<close>

definition valid_name :: "string \<Rightarrow> bool" where
  "valid_name s \<longleftrightarrow> s \<noteq> [] \<and> s \<noteq> ''.'' \<and> s \<noteq> ''..'' \<and> CHR ''/'' \<notin> set s"

text \<open>
  In a well-formed file system no path is stored twice, every stored path is made of names
  a directory entry can have, and its parent is a directory.
\<close>

definition wf_fs :: "filesystem \<Rightarrow> bool" where
  "wf_fs fs \<longleftrightarrow>
     distinct (map fst fs) \<and>
     list_all (\<lambda>(p, n). p \<noteq> [] \<and> list_all valid_name p \<and> lookup fs (butlast p) = Some Dir) fs"

text \<open>
  The output paths a run computes: one \<open>componentFilePath\<close> for each entry the run lists
  in the template directory (none when the run stops before the listing).
\<close>

definition outputPaths :: "env \<Rightarrow> (string \<Rightarrow> config option) \<Rightarrow> string \<Rightarrow> world \<Rightarrow> path list" where
  "outputPaths e JSON_parse componentName w =
     (case readConfig e JSON_parse w of
        Inl w' \<Rightarrow> []
      | Inr config \<Rightarrow>
          (case mkdirSync (files w) (componentDir e config componentName) of
             Inl err \<Rightarrow> []
           | Inr fs1 \<Rightarrow>
               (case readdirSync fs1 (templateDir e config) of
                  Inl err \<Rightarrow> []
                | Inr templateFiles \<Rightarrow>
                    map (\<lambda>file. fst (componentFilePath e config componentName file))
                      templateFiles)))"

text \<open>
  What the template directory holds in a file system: its listing, and the node at each
  listed entry.
\<close>

definition template_snapshot ::
  "env \<Rightarrow> config \<Rightarrow> filesystem \<Rightarrow> (errno + string list) \<times> node option list" where
  "template_snapshot e config fs =
     (readdirSync fs (templateDir e config),
      map (\<lambda>file. lookup fs (fst (templateFilePath e config file)))
        (children fs (fst (templateDir e config))))"

section \<open>A concrete project\<close>

text \<open>The project of the specification's scenario, as a file system.\<close>

definition demo_env :: env where
  "demo_env = \<lparr>dirname = [''home'', ''project''], cwd = [''home'', ''project'']\<rparr>"

definition demo_config :: config where
  "demo_config =
     \<lparr>COMPONENTS_DIR = ''./src/components'', TEMPLATE_DIR = ''./template'',
      COMPONENT_NAME_PLACEHOLDER = ''COMPONENT_NAME''\<rparr>"

definition demo_json :: string where
  \<open>demo_json = ''{"COMPONENTS_DIR":"./src/components","TEMPLATE_DIR":"./template","COMPONENT_NAME_PLACEHOLDER":"COMPONENT_NAME"}''\<close>

definition demo_parse :: "string \<Rightarrow> config option" where
  "demo_parse s = (if s = demo_json then Some demo_config else None)"

definition demo_template :: string where
  "demo_template = ''export const COMPONENT_NAME = () => {};''"

definition demo_fs :: filesystem where
  "demo_fs =
     [([''home''], Dir),
      ([''home'', ''project''], Dir),
      ([''home'', ''project'', ''cg.config.json''], File demo_json),
      ([''home'', ''project'', ''template''], Dir),
      ([''home'', ''project'', ''template'', ''COMPONENT_NAME.js''], File demo_template)]"

definition demo_world :: world where
  "demo_world = \<lparr>files = demo_fs, console = []\<rparr>"

text \<open>The same project without its configuration file, and with a broken one.\<close>

definition unconfigured_world :: world where
  "unconfigured_world =
     \<lparr>files = filter (\<lambda>(p, n). p \<noteq> [''home'', ''project'', ''cg.config.json'']) demo_fs,
      console = []\<rparr>"

definition misconfigured_world :: world where
  "misconfigured_world =
     \<lparr>files = AList.update [''home'', ''project'', ''cg.config.json''] (File ''{'') demo_fs,
      console = []\<rparr>"

text \<open>The same project with no template directory.\<close>

definition untemplated_world :: world where
  "untemplated_world = \<lparr>files = take 3 demo_fs, console = []\<rparr>"

text \<open>
  The project of the scenario after an earlier run, with a file of the user's in the
  component directory.
\<close>

definition populated_world :: world where
  "populated_world =
     \<lparr>files = demo_fs @
        [([''home'', ''project'', ''src''], Dir),
         ([''home'', ''project'', ''src'', ''components''], Dir),
         ([''home'', ''project'', ''src'', ''components'', ''Button''], Dir),
         ([''home'', ''project'', ''src'', ''components'', ''Button'', ''notes.txt''],
          File ''keep me''),
         ([''home'', ''project'', ''src'', ''components'', ''Button'', ''Button.js''],
          File ''old content'')],
      console = []\<rparr>"

text \<open>The project with other template files, and with a dot in its placeholder.\<close>

definition project_with :: "(string \<times> string) list \<Rightarrow> world" where
  "project_with templates =
     \<lparr>files = take 4 demo_fs @
        map (\<lambda>(name, body). ([''home'', ''project'', ''template'', name], File body)) templates,
      console = []\<rparr>"

definition dotted_config :: config where
  "dotted_config = demo_config\<lparr>COMPONENT_NAME_PLACEHOLDER := ''COMPONENT.NAME''\<rparr>"

text \<open>The scenario's configuration with the empty string as placeholder.\<close>

definition unmarked_config :: config where
  "unmarked_config = demo_config\<lparr>COMPONENT_NAME_PLACEHOLDER := []\<rparr>"

text \<open>The file system of the scenario once the directories of \<open>Button\<close> exist.\<close>

definition demo_fs1 :: filesystem where
  "demo_fs1 = demo_fs @
     [([''home'', ''project'', ''src''], Dir),
      ([''home'', ''project'', ''src'', ''components''], Dir),
      ([''home'', ''project'', ''src'', ''components'', ''Button''], Dir)]"

text \<open>The world the scenario's run leaves.\<close>

definition built_world :: world where
  "built_world =
     \<lparr>files = demo_fs1 @
        [([''home'', ''project'', ''src'', ''components'', ''Button'', ''Button.js''],
          File ''export const Button = () => {};'')],
      console = [CreatedSuccessfully ''Button'']\<rparr>"

section \<open>Substitution with a plain name\<close>

lemma GetSubstitution_plain:
  "plain_replacement N \<Longrightarrow> GetSubstitution matched str position N = N"
  by (induction N rule: plain_replacement.induct) auto

lemma indexOf_empty: "indexOf s [] = Some 0"
  by (cases s) simp_all

lemma String_replace_empty:
  "plain_replacement N \<Longrightarrow> String_replace file [] N = N @ file"
  by (simp add: String_replace_def indexOf_empty GetSubstitution_plain)


lemma inserted_everywhere_Cons:
  "inserted_everywhere N (c # s) = N @ c # inserted_everywhere N s"
  by (simp add: inserted_everywhere_def)

lemma RegExp_replace_from_empty:
  "plain_replacement N \<Longrightarrow> lastIndex \<le> length S \<Longrightarrow>
   RegExp_replace_from [] N S lastIndex = inserted_everywhere N (drop lastIndex S)"
proof (induction "length S - lastIndex" arbitrary: lastIndex)
  case 0
  then have "lastIndex = length S" by simp
  then show ?case
    by (simp add: RegExp_replace_from.simps [of "[]" N S "length S"]
        RegExp_replace_from.simps [of "[]" N S "Suc (length S)"]
        GetSubstitution_plain [OF "0.prems"(1)] inserted_everywhere_def)
next
  case (Suc n)
  then have lt: "lastIndex < length S" by simp
  then obtain c where c: "drop lastIndex S = c # drop (Suc lastIndex) S"
    by (metis Cons_nth_drop_Suc)
  from Suc have "RegExp_replace_from [] N S (Suc lastIndex) = inserted_everywhere N (drop (Suc lastIndex) S)"
    by simp
  with lt c show ?case
    by (simp add: RegExp_replace_from.simps [of "[]" N S lastIndex]
        GetSubstitution_plain [OF Suc.prems(1)] inserted_everywhere_Cons)
qed

lemma RegExp_replace_empty:
  "plain_replacement N \<Longrightarrow> RegExp_replace S [] N = inserted_everywhere N S"
  by (simp add: RegExp_replace_def RegExp_replace_from_empty)

section \<open>Substitution with a literal placeholder\<close>

lemma RegExp_new_literal:
  "list_all (\<lambda>c. \<not> SyntaxCharacter c) P \<Longrightarrow> RegExp_new P = Some (map Lit P)"
  by (induction P) (auto simp: SyntaxCharacter_def)

lemma match_here_literal: "match_here (map Lit P) s \<longleftrightarrow> prefix P s"
proof (induction P arbitrary: s)
  case Nil
  then show ?case by simp
next
  case (Cons c P)
  then show ?case by (cases s) auto
qed

lemma RegExp_replace_from_literal:
  assumes "P \<noteq> []" and "plain_replacement N"
  shows "lastIndex \<le> length S \<Longrightarrow>
         RegExp_replace_from (map Lit P) N S lastIndex = replace_every P N (drop lastIndex S)"
proof (induction "length S - lastIndex" arbitrary: lastIndex rule: less_induct)
  case less
  show ?case
  proof (cases "drop lastIndex S")
    case Nil
    with less.prems have "lastIndex = length S" by simp
    moreover from assms(1) have "\<not> match_here (map Lit P) []" by (cases P) simp_all
    ultimately show ?thesis
      by (simp add: RegExp_replace_from.simps [of _ N S "length S"]
          RegExp_replace_from.simps [of _ N S "Suc (length S)"])
  next
    case (Cons c rest)
    then have lt: "lastIndex < length S" by (cases "lastIndex < length S") simp_all
    from Cons have rest: "drop (Suc lastIndex) S = rest"
      by (metis drop_Suc tl_drop list.sel(3))
    show ?thesis
    proof (cases "prefix P (c # rest)")
      case True
      with Cons have "length P \<le> length S - lastIndex"
        by (metis length_drop prefix_length_le)
      with lt have bound: "lastIndex + length P \<le> length S" by simp
      from assms(1) lt bound have dec: "length S - (lastIndex + length P) < length S - lastIndex"
        by (cases P) simp_all
      from True Cons have "take (length P) (drop lastIndex S) = P"
        by (metis append_eq_conv_conj prefix_def)
      moreover have "RegExp_replace_from (map Lit P) N S (lastIndex + length P) =
                     replace_every P N (drop (lastIndex + length P) S)"
        using dec bound by (rule less.hyps)
      moreover have "drop (lastIndex + length P) S = drop (length P) (c # rest)"
        by (simp add: Cons [symmetric] add.commute)
      ultimately show ?thesis
        using True Cons assms lt
        by (simp add: RegExp_replace_from.simps [of _ N S lastIndex] match_here_literal
            GetSubstitution_plain)
    next
      case False
      have "RegExp_replace_from (map Lit P) N S (Suc lastIndex) =
            replace_every P N (drop (Suc lastIndex) S)"
        using lt by (intro less.hyps) simp_all
      with False Cons rest lt show ?thesis
        by (simp add: RegExp_replace_from.simps [of _ N S lastIndex] match_here_literal)
    qed
  qed
qed

lemma componentContent_literal:
  assumes "list_all (\<lambda>c. \<not> SyntaxCharacter c) (COMPONENT_NAME_PLACEHOLDER config)"
    and "COMPONENT_NAME_PLACEHOLDER config \<noteq> []" and "plain_replacement N"
  shows "componentContent config N content =
         Some (replace_every (COMPONENT_NAME_PLACEHOLDER config) N content)"
  using assms
  by (simp add: componentContent_def RegExp_new_literal RegExp_replace_def
      RegExp_replace_from_literal)

section \<open>Joined paths\<close>


lemma segments_no_separator: "CHR ''/'' \<notin> set s \<Longrightarrow> segments s = [s]"
  by (induction s) auto

lemma segments_free_of_separator: "x \<in> set (segments s) \<Longrightarrow> CHR ''/'' \<notin> set x"
  by (induction s arbitrary: x) (auto split: if_splits list.splits)






lemma normalizeString_segments_Nil: "normalizeString res (segments []) = res"
  by simp

lemma normalizeString_keeps_valid:
  "list_all valid_name res \<Longrightarrow> \<forall>x \<in> set ss. CHR ''/'' \<notin> set x \<Longrightarrow>
   list_all valid_name (normalizeString res ss)"
proof (induction ss arbitrary: res)
  case Nil
  then show ?case by simp
next
  case (Cons s ss)
  from Cons.prems(1) have "list_all valid_name (butlast res)"
    by (auto simp: list_all_iff dest: in_set_butlastD)
  moreover from Cons.prems have "s \<noteq> [] \<Longrightarrow> s \<noteq> ''.'' \<Longrightarrow> s \<noteq> ''..'' \<Longrightarrow> list_all valid_name (res @ [s])"
    by (auto simp: list_all_iff valid_name_def)
  ultimately show ?case using Cons by auto
qed

lemma path_join_one: "fst (path_join base [a]) = normalizeString (fst base) (segments a)"
  by (simp add: path_join_def)


lemma path_join_keeps_valid:
  "list_all valid_name (fst base) \<Longrightarrow> list_all valid_name (fst (path_join base args))"
  by (auto simp: path_join_def Let_def intro!: normalizeString_keeps_valid dest: segments_free_of_separator)

lemma path_join_valid_name:
  "valid_name f \<Longrightarrow> path_join base [f] = (fst base @ [f], False)"
  by (cases f rule: rev_cases)
     (auto simp: path_join_def valid_name_def segments_no_separator)


lemma valid_name_prepend:
  "valid_name f \<Longrightarrow> CHR ''/'' \<notin> set N \<Longrightarrow> valid_name (N @ f)"
  by (auto simp: valid_name_def append_eq_Cons_conv Cons_eq_append_conv)

lemma templateFilePath_valid:
  "valid_name f \<Longrightarrow> templateFilePath e config f = (fst (templateDir e config) @ [f], False)"
  by (simp add: templateFilePath_def path_join_valid_name)

lemma componentDir_valid:
  "list_all valid_name (dirname e) \<Longrightarrow> list_all valid_name (fst (componentDir e config N))"
  by (simp add: componentDir_def path_join_keeps_valid)

section \<open>Directory creation\<close>

lemma lookup_append_absent:
  "lookup fs d = None \<Longrightarrow> lookup (fs @ [(d, n)]) p = (if p = d then Some n else lookup fs p)"
  by (auto simp: lookup_def map_add_def split: option.splits if_splits)

lemma mkdir_p_extends:
  "mkdir_p fs cur ss = Inr fs' \<Longrightarrow> lookup fs p = Some n \<Longrightarrow> lookup fs' p = Some n"
proof (induction ss arbitrary: fs cur)
  case Nil
  then show ?case by simp
next
  case (Cons s ss)
  show ?case
  proof (cases "lookup fs (cur @ [s])")
    case None
    with Cons.prems have "mkdir_p (fs @ [(cur @ [s], Dir)]) (cur @ [s]) ss = Inr fs'" by simp
    moreover from None Cons.prems have "lookup (fs @ [(cur @ [s], Dir)]) p = Some n"
      by (auto simp: lookup_append_absent)
    ultimately show ?thesis by (rule Cons.IH)
  next
    case (Some nd)
    with Cons.prems show ?thesis
      by (cases nd) (auto intro: Cons.IH)
  qed
qed

lemma mkdir_p_creates:
  "mkdir_p fs cur ss = Inr fs' \<Longrightarrow> lookup fs cur = Some Dir \<Longrightarrow> lookup fs' (cur @ ss) = Some Dir"
proof (induction ss arbitrary: fs cur)
  case Nil
  then show ?case by simp
next
  case (Cons s ss)
  show ?case
  proof (cases "lookup fs (cur @ [s])")
    case None
    with Cons.prems have "mkdir_p (fs @ [(cur @ [s], Dir)]) (cur @ [s]) ss = Inr fs'" by simp
    moreover from None have "lookup (fs @ [(cur @ [s], Dir)]) (cur @ [s]) = Some Dir"
      by (simp add: lookup_append_absent)
    ultimately have "lookup fs' ((cur @ [s]) @ ss) = Some Dir" by (rule Cons.IH)
    then show ?thesis by simp
  next
    case (Some nd)
    with Cons.prems have "nd = Dir" and "mkdir_p fs (cur @ [s]) ss = Inr fs'"
      by (cases nd; simp)+
    then have "lookup fs' ((cur @ [s]) @ ss) = Some Dir"
      using Some Cons.IH [of fs "cur @ [s]"] by simp
    then show ?thesis by simp
  qed
qed

lemma mkdirSync_creates:
  "mkdirSync fs pn = Inr fs' \<Longrightarrow> lookup fs' (fst pn) = Some Dir"
  using mkdir_p_creates [of fs "[]" "fst pn" fs'] by (simp add: mkdirSync_def lookup_def)

lemma mkdir_p_lookup:
  "mkdir_p fs cur ss = Inr fs' \<Longrightarrow>
   lookup fs' q = lookup fs q \<or>
   (lookup fs q = None \<and> lookup fs' q = Some Dir \<and> (\<exists>r. prefix r ss \<and> r \<noteq> [] \<and> q = cur @ r))"
proof (induction ss arbitrary: fs cur)
  case Nil
  then show ?case by simp
next
  case (Cons s ss)
  have deeper: "\<exists>r'. prefix r' (s # ss) \<and> r' \<noteq> [] \<and> q = cur @ r'"
    if "prefix r ss" and "q = (cur @ [s]) @ r" for r
    using that by (intro exI [of _ "s # r"]) simp
  show ?case
  proof (cases "lookup fs (cur @ [s])")
    case None
    with Cons.prems have "mkdir_p (fs @ [(cur @ [s], Dir)]) (cur @ [s]) ss = Inr fs'" by simp
    from Cons.IH [OF this]
    have "lookup fs' q = lookup (fs @ [(cur @ [s], Dir)]) q \<or>
          (lookup (fs @ [(cur @ [s], Dir)]) q = None \<and> lookup fs' q = Some Dir \<and>
           (\<exists>r. prefix r ss \<and> r \<noteq> [] \<and> q = (cur @ [s]) @ r))" .
    then show ?thesis
    proof
      assume same: "lookup fs' q = lookup (fs @ [(cur @ [s], Dir)]) q"
      show ?thesis
      proof (cases "q = cur @ [s]")
        case True
        with same None have "lookup fs q = None" and "lookup fs' q = Some Dir"
          by (simp_all add: lookup_append_absent)
        moreover from True have "\<exists>r. prefix r (s # ss) \<and> r \<noteq> [] \<and> q = cur @ r"
          by (intro exI [of _ "[s]"]) simp
        ultimately show ?thesis by blast
      next
        case False
        with same None show ?thesis by (simp add: lookup_append_absent)
      qed
    next
      assume "lookup (fs @ [(cur @ [s], Dir)]) q = None \<and> lookup fs' q = Some Dir \<and>
           (\<exists>r. prefix r ss \<and> r \<noteq> [] \<and> q = (cur @ [s]) @ r)"
      with None deeper show ?thesis
        by (auto simp: lookup_append_absent split: if_splits)
    qed
  next
    case (Some nd)
    with Cons.prems have "nd = Dir" and "mkdir_p fs (cur @ [s]) ss = Inr fs'"
      by (cases nd; simp)+
    from Cons.IH [OF this(2)] deeper show ?thesis by blast
  qed
qed

lemma mkdir_p_prefixes:
  "mkdir_p fs cur ss = Inr fs' \<Longrightarrow> lookup fs cur = Some Dir \<Longrightarrow> prefix q ss \<Longrightarrow>
   lookup fs' (cur @ q) = Some Dir"
proof (induction ss arbitrary: fs cur q)
  case Nil
  then show ?case by simp
next
  case (Cons s ss)
  show ?case
  proof (cases q)
    case Nil
    with mkdir_p_extends [OF Cons.prems(1,2)] show ?thesis by simp
  next
    case q: (Cons x q')
    with Cons.prems(3) have x: "x = s" and q': "prefix q' ss" by simp_all
    show ?thesis
    proof (cases "lookup fs (cur @ [s])")
      case None
      with Cons.prems have "mkdir_p (fs @ [(cur @ [s], Dir)]) (cur @ [s]) ss = Inr fs'" by simp
      moreover from None have "lookup (fs @ [(cur @ [s], Dir)]) (cur @ [s]) = Some Dir"
        by (simp add: lookup_append_absent)
      ultimately have "lookup fs' ((cur @ [s]) @ q') = Some Dir" using q' by (rule Cons.IH)
      with q x show ?thesis by simp
    next
      case (Some nd)
      with Cons.prems have "nd = Dir" and "mkdir_p fs (cur @ [s]) ss = Inr fs'"
        by (cases nd; simp)+
      then have "lookup fs' ((cur @ [s]) @ q') = Some Dir"
        using Some q' Cons.IH [of fs "cur @ [s]" q'] by simp
      with q x show ?thesis by simp
    qed
  qed
qed


lemma mkdir_p_again:
  "mkdir_p fs cur ss = Inr fs' \<Longrightarrow> lookup fs cur = Some Dir \<Longrightarrow>
   (\<And>p. lookup fs' p = Some Dir \<Longrightarrow> lookup t p = Some Dir) \<Longrightarrow> mkdir_p t cur ss = Inr t"
proof (induction ss arbitrary: fs cur)
  case Nil
  then show ?case by simp
next
  case (Cons s ss)
  have "prefix [s] (s # ss)" by simp
  with Cons.prems(1,2) have "lookup fs' (cur @ [s]) = Some Dir" by (rule mkdir_p_prefixes)
  then have t: "lookup t (cur @ [s]) = Some Dir" by (rule Cons.prems(3))
  have "mkdir_p t (cur @ [s]) ss = Inr t"
  proof (cases "lookup fs (cur @ [s])")
    case None
    with Cons.prems have "mkdir_p (fs @ [(cur @ [s], Dir)]) (cur @ [s]) ss = Inr fs'" by simp
    moreover from None have "lookup (fs @ [(cur @ [s], Dir)]) (cur @ [s]) = Some Dir"
      by (simp add: lookup_append_absent)
    ultimately show ?thesis using Cons.prems(3) by (rule Cons.IH)
  next
    case (Some nd)
    with Cons.prems have "nd = Dir" and "mkdir_p fs (cur @ [s]) ss = Inr fs'"
      by (cases nd; simp)+
    with Some show ?thesis using Cons.prems(3) Cons.IH [of fs "cur @ [s]"] by simp
  qed
  with t show ?case by simp
qed

lemma mkdir_p_succeeds:
  "(\<And>q. prefix q ss \<Longrightarrow> \<not> is_file (lookup fs (cur @ q))) \<Longrightarrow> \<exists>fs'. mkdir_p fs cur ss = Inr fs'"
proof (induction ss arbitrary: fs cur)
  case Nil
  then show ?case by simp
next
  case (Cons s ss)
  have here: "\<not> is_file (lookup fs (cur @ [s]))" using Cons.prems [of "[s]"] by simp
  have below: "\<not> is_file (lookup fs ((cur @ [s]) @ q))" if "prefix q ss" for q
    using Cons.prems [of "s # q"] that by simp
  show ?case
  proof (cases "lookup fs (cur @ [s])")
    case None
    have "\<not> is_file (lookup (fs @ [(cur @ [s], Dir)]) ((cur @ [s]) @ q))" if "prefix q ss" for q
      using below [OF that] None by (simp add: lookup_append_absent is_file_def)
    then have "\<exists>fs'. mkdir_p (fs @ [(cur @ [s], Dir)]) (cur @ [s]) ss = Inr fs'" by (rule Cons.IH)
    with None show ?thesis by simp
  next
    case (Some nd)
    with here have "nd = Dir" by (cases nd) (simp_all add: is_file_def)
    moreover have "\<exists>fs'. mkdir_p fs (cur @ [s]) ss = Inr fs'" using below by (rule Cons.IH)
    ultimately show ?thesis using Some by simp
  qed
qed

lemma mkdirSync_succeeds:
  "\<forall>q \<in> set (prefixes (fst pn)). \<not> is_file (lookup fs q) \<Longrightarrow> \<exists>fs'. mkdirSync fs pn = Inr fs'"
  unfolding mkdirSync_def by (rule mkdir_p_succeeds) simp

lemma children_append:
  "children (fs @ [(d, n)]) p = children fs p @ (if d \<noteq> [] \<and> butlast d = p then [last d] else [])"
  by (simp add: children_def)

lemma mkdir_p_children:
  "mkdir_p fs cur ss = Inr fs' \<Longrightarrow> (\<And>q. prefix q ss \<Longrightarrow> cur @ butlast q \<noteq> p \<or> q = []) \<Longrightarrow>
   children fs' p = children fs p"
proof (induction ss arbitrary: fs cur)
  case Nil
  then show ?case by simp
next
  case (Cons s ss)
  have here: "cur \<noteq> p" using Cons.prems(2) [of "[s]"] by simp
  have below: "(cur @ [s]) @ butlast q \<noteq> p \<or> q = []" if "prefix q ss" for q
    using Cons.prems(2) [of "s # q"] that by (cases q) auto
  show ?case
  proof (cases "lookup fs (cur @ [s])")
    case None
    with Cons.prems have "mkdir_p (fs @ [(cur @ [s], Dir)]) (cur @ [s]) ss = Inr fs'" by simp
    then have "children fs' p = children (fs @ [(cur @ [s], Dir)]) p" using below by (rule Cons.IH)
    with here show ?thesis by (simp add: children_append)
  next
    case (Some nd)
    with Cons.prems have "nd = Dir" and "mkdir_p fs (cur @ [s]) ss = Inr fs'"
      by (cases nd; simp)+
    then show ?thesis using below Cons.IH [of fs "cur @ [s]"] by simp
  qed
qed

section \<open>Well-formed file systems\<close>

lemma wf_fs_stored:
  assumes "wf_fs fs" and "(p, n) \<in> set fs"
  shows "p \<noteq> []" and "list_all valid_name p" and "lookup fs (butlast p) = Some Dir"
    and "lookup fs p = Some n"
  using assms by (auto simp: wf_fs_def list_all_iff lookup_def)

lemma children_iff:
  "f \<in> set (children fs p) \<longleftrightarrow> (\<exists>n. (p @ [f], n) \<in> set fs)"
proof
  assume "f \<in> set (children fs p)"
  then obtain q n where "(q, n) \<in> set fs" and "q \<noteq> []" and "butlast q = p" and "f = last q"
    by (auto simp: children_def)
  then have "q = p @ [f]" by (metis append_butlast_last_id)
  with \<open>(q, n) \<in> set fs\<close> show "\<exists>n. (p @ [f], n) \<in> set fs" by blast
next
  assume "\<exists>n. (p @ [f], n) \<in> set fs"
  then obtain n where "(p @ [f], n) \<in> set fs" ..
  then show "f \<in> set (children fs p)"
    by (auto simp: children_def intro!: image_eqI [where x = "(p @ [f], n)"])
qed

lemma wf_fs_children:
  assumes "wf_fs fs" and "f \<in> set (children fs p)"
  shows "valid_name f" and "lookup fs (p @ [f]) \<noteq> None"
proof -
  from assms(2) obtain n where "(p @ [f], n) \<in> set fs" by (auto simp: children_iff)
  from wf_fs_stored(2,4) [OF assms(1) this]
  show "valid_name f" and "lookup fs (p @ [f]) \<noteq> None" by simp_all
qed

lemma wf_fs_children_distinct:
  assumes "wf_fs fs"
  shows "distinct (children fs p)"
proof -
  let ?sel = "filter (\<lambda>(q, n). q \<noteq> [] \<and> butlast q = p) fs"
  from assms have keys: "distinct (map fst fs)" by (simp add: wf_fs_def)
  then have "distinct (map fst ?sel)" by (rule distinct_map_filter)
  moreover have "inj_on last (set (map fst ?sel))"
  proof (rule inj_onI)
    fix x y
    assume "x \<in> set (map fst ?sel)" and "y \<in> set (map fst ?sel)" and "last x = last y"
    then have "x \<noteq> []" and "y \<noteq> []" and "butlast x = butlast y" by auto
    with \<open>last x = last y\<close> show "x = y" by (metis append_butlast_last_id)
  qed
  ultimately have "distinct (map last (map fst ?sel))"
    by (simp only: distinct_map)
  then show ?thesis by (simp add: children_def)
qed

lemma wf_fs_append:
  assumes "wf_fs fs" and "lookup fs d = None" and "list_all valid_name d"
    and "lookup fs (butlast d) = Some Dir"
  shows "wf_fs (fs @ [(d, n)])"
proof -
  from assms(2) have d: "d \<noteq> []" and absent: "map_of fs d = None"
    by (auto simp: lookup_def split: if_splits)
  from absent have "d \<notin> fst ` set fs" by (simp add: map_of_eq_None_iff)
  with assms(1) have "distinct (map fst (fs @ [(d, n)]))" by (simp add: wf_fs_def)
  moreover have "lookup (fs @ [(d, n)]) (butlast q) = Some Dir"
    if "lookup fs (butlast q) = Some Dir" for q
    using that assms(2) by (auto simp: lookup_append_absent)
  then have "list_all (\<lambda>(p, n'). p \<noteq> [] \<and> list_all valid_name p \<and>
               lookup (fs @ [(d, n)]) (butlast p) = Some Dir) (fs @ [(d, n)])"
    using assms d by (auto simp: wf_fs_def list_all_iff)
  ultimately show ?thesis by (simp add: wf_fs_def)
qed

lemma mkdir_p_wf:
  "wf_fs fs \<Longrightarrow> lookup fs cur = Some Dir \<Longrightarrow> list_all valid_name (cur @ ss) \<Longrightarrow>
   mkdir_p fs cur ss = Inr fs' \<Longrightarrow> wf_fs fs'"
proof (induction ss arbitrary: fs cur)
  case Nil
  then show ?case by simp
next
  case (Cons s ss)
  from Cons.prems(3) have names: "list_all valid_name (cur @ [s])" "list_all valid_name ((cur @ [s]) @ ss)"
    by simp_all
  show ?case
  proof (cases "lookup fs (cur @ [s])")
    case None
    with Cons.prems have run: "mkdir_p (fs @ [(cur @ [s], Dir)]) (cur @ [s]) ss = Inr fs'" by simp
    from Cons.prems(1) None names(1) Cons.prems(2)
    have "wf_fs (fs @ [(cur @ [s], Dir)])" by (intro wf_fs_append) simp_all
    moreover from None have "lookup (fs @ [(cur @ [s], Dir)]) (cur @ [s]) = Some Dir"
      by (simp add: lookup_append_absent)
    ultimately show ?thesis using names(2) run by (rule Cons.IH)
  next
    case (Some nd)
    with Cons.prems have "nd = Dir" and "mkdir_p fs (cur @ [s]) ss = Inr fs'"
      by (cases nd; simp)+
    with Some Cons.prems(1) names(2) show ?thesis
      using Cons.IH [of fs "cur @ [s]"] by simp
  qed
qed

lemma mkdirSync_wf:
  "wf_fs fs \<Longrightarrow> list_all valid_name (fst pn) \<Longrightarrow> mkdirSync fs pn = Inr fs' \<Longrightarrow> wf_fs fs'"
  using mkdir_p_wf [of fs "[]" "fst pn" fs'] by (simp add: mkdirSync_def lookup_def)

lemma listed_names_valid:
  assumes "wf_fs fs" and "readdirSync fs pn = Inr templateFiles" and "f \<in> set templateFiles"
  shows "valid_name f"
proof -
  from assms(2) have "templateFiles = children fs (fst pn)"
    by (auto simp: readdirSync_def split: option.splits node.splits)
  with assms(1,3) show ?thesis by (auto dest: wf_fs_children(1))
qed

section \<open>Reads and writes\<close>

lemma lookup_update:
  "p \<noteq> [] \<Longrightarrow> lookup (AList.update p n fs) q = (if q = p then Some n else lookup fs q)"
  by (simp add: lookup_def update_conv')

lemma readFileSync_Inr_iff:
  "readFileSync fs pn = Inr c \<longleftrightarrow> lookup fs (fst pn) = Some (File c) \<and> \<not> snd pn"
  by (auto simp: readFileSync_def split: option.splits node.splits)

lemma writeFileSync_Inr:
  assumes "writeFileSync fs pn content = Inr fs'"
  shows "fs' = AList.update (fst pn) (File content) fs" and "fst pn \<noteq> []" and "\<not> snd pn"
    and "lookup fs (fst pn) \<noteq> Some Dir"
    and "lookup fs (fst pn) = None \<Longrightarrow> lookup fs (butlast (fst pn)) = Some Dir"
  using assms
  by (auto simp: writeFileSync_def lookup_def split: option.splits node.splits if_splits)

lemma writeFileSync_lookup:
  "writeFileSync fs pn content = Inr fs' \<Longrightarrow>
   lookup fs' q = (if q = fst pn then Some (File content) else lookup fs q)"
  using writeFileSync_Inr(1,2) [of fs pn content fs'] by (simp add: lookup_update)

lemma writeFileSync_succeeds:
  assumes "\<not> snd pn" and "lookup fs (fst pn) \<noteq> Some Dir"
    and "lookup fs (butlast (fst pn)) = Some Dir"
  shows "writeFileSync fs pn content = Inr (AList.update (fst pn) (File content) fs)"
  using assms by (auto simp: writeFileSync_def split: option.splits node.splits)

section \<open>The loop over the template entries\<close>

lemma forEach_frame:
  "forEach e config N fs_files fs = (st, fs') \<Longrightarrow>
   \<forall>f \<in> set fs_files. q \<noteq> fst (componentFilePath e config N f) \<Longrightarrow>
   lookup fs' q = lookup fs q"
proof (induction fs_files arbitrary: fs)
  case Nil
  then show ?case by simp
next
  case (Cons f rest)
  show ?case
  proof (cases "readFileSync fs (templateFilePath e config f)")
    case (Inl err)
    with Cons.prems show ?thesis by simp
  next
    case (Inr templateContent)
    show ?thesis
    proof (cases "componentContent config N templateContent")
      case None
      with Inr Cons.prems show ?thesis by simp
    next
      case (Some content)
      show ?thesis
      proof (cases "writeFileSync fs (componentFilePath e config N f) content")
        case (Inl err)
        with Inr Some Cons.prems show ?thesis by simp
      next
        case written: (Inr fs1)
        with Inr Some Cons.prems have "forEach e config N rest fs1 = (st, fs')" by simp
        moreover from Cons.prems have "\<forall>f \<in> set rest. q \<noteq> fst (componentFilePath e config N f)"
          by simp
        ultimately have "lookup fs' q = lookup fs1 q" by (rule Cons.IH)
        also from Cons.prems have "lookup fs1 q = lookup fs q"
          by (simp add: writeFileSync_lookup [OF written])
        finally show ?thesis .
      qed
    qed
  qed
qed

lemma forEach_keeps_dirs:
  "forEach e config N fs_files fs = (st, fs') \<Longrightarrow>
   lookup fs' p = Some Dir \<longleftrightarrow> lookup fs p = Some Dir"
proof (induction fs_files arbitrary: fs)
  case Nil
  then show ?case by simp
next
  case (Cons f rest)
  show ?case
  proof (cases "readFileSync fs (templateFilePath e config f)")
    case (Inl err)
    with Cons.prems show ?thesis by simp
  next
    case (Inr templateContent)
    show ?thesis
    proof (cases "componentContent config N templateContent")
      case None
      with Inr Cons.prems show ?thesis by simp
    next
      case (Some content)
      show ?thesis
      proof (cases "writeFileSync fs (componentFilePath e config N f) content")
        case (Inl err)
        with Inr Some Cons.prems show ?thesis by simp
      next
        case written: (Inr fs1)
        with Inr Some Cons.prems have "forEach e config N rest fs1 = (st, fs')" by simp
        then have "lookup fs' p = Some Dir \<longleftrightarrow> lookup fs1 p = Some Dir" by (rule Cons.IH)
        also have "\<dots> \<longleftrightarrow> lookup fs p = Some Dir"
          using writeFileSync_Inr(4) [OF written]
          by (auto simp: writeFileSync_lookup [OF written])
        finally show ?thesis .
      qed
    qed
  qed
qed

lemma forEach_keeps_files:
  "forEach e config N fs_files s = (st, s') \<Longrightarrow> is_file (lookup s p) \<Longrightarrow> is_file (lookup s' p)"
proof (induction fs_files arbitrary: s)
  case Nil
  then show ?case by simp
next
  case (Cons f rest)
  show ?case
  proof (cases "readFileSync s (templateFilePath e config f)")
    case (Inl err)
    with Cons.prems show ?thesis by simp
  next
    case (Inr templateContent)
    show ?thesis
    proof (cases "componentContent config N templateContent")
      case None
      with Inr Cons.prems show ?thesis by simp
    next
      case (Some content)
      show ?thesis
      proof (cases "writeFileSync s (componentFilePath e config N f) content")
        case (Inl err)
        with Inr Some Cons.prems show ?thesis by simp
      next
        case written: (Inr s1)
        with Inr Some Cons.prems have "forEach e config N rest s1 = (st, s')" by simp
        moreover from Cons.prems(2) have "is_file (lookup s1 p)"
          by (simp add: writeFileSync_lookup [OF written] is_file_def)
        ultimately show ?thesis by (rule Cons.IH)
      qed
    qed
  qed
qed

lemma forEach_Cons_Completed:
  assumes "forEach e config N (f # rest) s = (Completed, s')"
  obtains c c' s1 where "readFileSync s (templateFilePath e config f) = Inr c"
    and "componentContent config N c = Some c'"
    and "writeFileSync s (componentFilePath e config N f) c' = Inr s1"
    and "forEach e config N rest s1 = (Completed, s')"
  using assms by (auto split: sum.splits option.splits)

lemma forEach_written:
  "forEach e config N fs_files s = (Completed, s') \<Longrightarrow> f \<in> set fs_files \<Longrightarrow>
   is_file (lookup s' (fst (componentFilePath e config N f)))"
proof (induction fs_files arbitrary: s)
  case Nil
  then show ?case by simp
next
  case (Cons g rest)
  from Cons.prems(1) obtain c c' s1
    where written: "writeFileSync s (componentFilePath e config N g) c' = Inr s1"
      and run: "forEach e config N rest s1 = (Completed, s')"
    by (rule forEach_Cons_Completed)
  show ?case
  proof (cases "f = g")
    case True
    have "is_file (lookup s1 (fst (componentFilePath e config N g)))"
      by (simp add: writeFileSync_lookup [OF written] is_file_def)
    with run True show ?thesis by (auto intro: forEach_keeps_files)
  next
    case False
    with Cons.prems(2) have "f \<in> set rest" by simp
    with run show ?thesis by (rule Cons.IH)
  qed
qed

lemma forEach_completes:
  assumes rx: "RegExp_new (COMPONENT_NAME_PLACEHOLDER config) = Some r"
  shows "(\<And>f. f \<in> set fs_files \<Longrightarrow> readFileSync fs (templateFilePath e config f) = Inr (body f)) \<Longrightarrow>
    (\<And>f. f \<in> set fs_files \<Longrightarrow>
        \<not> snd (componentFilePath e config N f) \<and>
        lookup fs (butlast (fst (componentFilePath e config N f))) = Some Dir \<and>
        lookup fs (fst (componentFilePath e config N f)) \<noteq> Some Dir) \<Longrightarrow>
    (\<And>f g. f \<in> set fs_files \<Longrightarrow> g \<in> set fs_files \<Longrightarrow>
        fst (componentFilePath e config N f) \<noteq> fst (templateFilePath e config g)) \<Longrightarrow>
    inj_on (\<lambda>f. fst (componentFilePath e config N f)) (set fs_files) \<Longrightarrow>
    \<exists>fs'. forEach e config N fs_files fs = (Completed, fs') \<and>
      (\<forall>f \<in> set fs_files. lookup fs' (fst (componentFilePath e config N f)) =
          Some (File (RegExp_replace (body f) r N)))"
proof (induction fs_files arbitrary: fs)
  case Nil
  then show ?case by simp
next
  case (Cons f rest)
  let ?out = "\<lambda>f. componentFilePath e config N f"
  let ?content = "RegExp_replace (body f) r N"
  have rd: "readFileSync fs (templateFilePath e config f) = Inr (body f)"
    by (rule Cons.prems(1)) simp
  have cc: "componentContent config N (body f) = Some ?content"
    by (simp add: componentContent_def rx)
  have wr: "\<not> snd (?out f)" "lookup fs (butlast (fst (?out f))) = Some Dir"
    "lookup fs (fst (?out f)) \<noteq> Some Dir"
    using Cons.prems(2) [of f] by simp_all
  then have written: "writeFileSync fs (?out f) ?content = Inr (AList.update (fst (?out f)) (File ?content) fs)"
    by (intro writeFileSync_succeeds)
  let ?fs1 = "AList.update (fst (?out f)) (File ?content) fs"
  have look: "lookup ?fs1 q = (if q = fst (?out f) then Some (File ?content) else lookup fs q)" for q
    by (rule writeFileSync_lookup [OF written])
  have "\<exists>fs'. forEach e config N rest ?fs1 = (Completed, fs') \<and>
      (\<forall>g \<in> set rest. lookup fs' (fst (?out g)) = Some (File (RegExp_replace (body g) r N)))"
  proof (rule Cons.IH)
    fix g assume g: "g \<in> set rest"
    then have "readFileSync fs (templateFilePath e config g) = Inr (body g)"
      by (intro Cons.prems(1)) simp
    moreover have "fst (?out f) \<noteq> fst (templateFilePath e config g)"
      using g by (intro Cons.prems(3)) simp_all
    ultimately show "readFileSync ?fs1 (templateFilePath e config g) = Inr (body g)"
      by (simp add: readFileSync_Inr_iff look)
    from g have "\<not> snd (?out g) \<and> lookup fs (butlast (fst (?out g))) = Some Dir \<and>
        lookup fs (fst (?out g)) \<noteq> Some Dir"
      by (intro Cons.prems(2)) simp
    with wr show "\<not> snd (?out g) \<and> lookup ?fs1 (butlast (fst (?out g))) = Some Dir \<and>
        lookup ?fs1 (fst (?out g)) \<noteq> Some Dir"
      by (auto simp: look)
  next
    fix g h assume "g \<in> set rest" "h \<in> set rest"
    then show "fst (?out g) \<noteq> fst (templateFilePath e config h)"
      by (intro Cons.prems(3)) simp_all
  next
    from Cons.prems(4) show "inj_on (\<lambda>f. fst (?out f)) (set rest)"
      by (rule inj_on_subset) auto
  qed
  then obtain fs' where run: "forEach e config N rest ?fs1 = (Completed, fs')"
    and rest: "\<forall>g \<in> set rest. lookup fs' (fst (?out g)) = Some (File (RegExp_replace (body g) r N))"
    by blast
  have "lookup fs' (fst (?out f)) = Some (File ?content)"
  proof (cases "f \<in> set rest")
    case True
    with rest show ?thesis by simp
  next
    case False
    have "\<forall>g \<in> set rest. fst (?out f) \<noteq> fst (?out g)"
    proof
      fix g assume "g \<in> set rest"
      with False have "g \<noteq> f" "g \<in> set (f # rest)" by auto
      with Cons.prems(4) show "fst (?out f) \<noteq> fst (?out g)"
        by (auto simp: inj_on_def)
    qed
    with run have "lookup fs' (fst (?out f)) = lookup ?fs1 (fst (?out f))" by (rule forEach_frame)
    then show ?thesis by (simp add: look)
  qed
  with rest run rd cc written show ?case by simp
qed

lemma forEach_again:
  assumes "forEach e config N fs_files s = (Completed, s')"
    and "\<And>f. f \<in> set fs_files \<Longrightarrow>
           lookup t (fst (templateFilePath e config f)) = lookup s (fst (templateFilePath e config f))"
    and "\<And>f. f \<in> set fs_files \<Longrightarrow> is_file (lookup t (fst (componentFilePath e config N f)))"
  shows "\<exists>t'. forEach e config N fs_files t = (Completed, t') \<and>
           (\<forall>p. lookup t' p =
              (if p \<in> (\<lambda>f. fst (componentFilePath e config N f)) ` set fs_files
               then lookup s' p else lookup t p))"
  using assms
proof (induction fs_files arbitrary: s t)
  case Nil
  then show ?case by simp
next
  case (Cons f rest)
  let ?out = "\<lambda>f. fst (componentFilePath e config N f)"
  from Cons.prems(1) obtain c c' s1
    where rd: "readFileSync s (templateFilePath e config f) = Inr c"
      and cc: "componentContent config N c = Some c'"
      and written: "writeFileSync s (componentFilePath e config N f) c' = Inr s1"
      and run: "forEach e config N rest s1 = (Completed, s')"
    by (rule forEach_Cons_Completed)
  have "lookup t (fst (templateFilePath e config f)) = lookup s (fst (templateFilePath e config f))"
    by (rule Cons.prems(2)) simp
  with rd have rd': "readFileSync t (templateFilePath e config f) = Inr c"
    by (simp add: readFileSync_Inr_iff)
  have "is_file (lookup t (?out f))" by (rule Cons.prems(3)) simp
  moreover note writeFileSync_Inr(3) [OF written]
  ultimately have written': "writeFileSync t (componentFilePath e config N f) c' =
      Inr (AList.update (?out f) (File c') t)"
    by (auto simp: writeFileSync_def is_file_def split: option.splits node.splits)
  let ?t1 = "AList.update (?out f) (File c') t"
  have look_t: "lookup ?t1 q = (if q = ?out f then Some (File c') else lookup t q)" for q
    by (rule writeFileSync_lookup [OF written'])
  have look_s: "lookup s1 q = (if q = ?out f then Some (File c') else lookup s q)" for q
    by (rule writeFileSync_lookup [OF written])
  have "\<exists>t'. forEach e config N rest ?t1 = (Completed, t') \<and>
           (\<forall>p. lookup t' p = (if p \<in> ?out ` set rest then lookup s' p else lookup ?t1 p))"
  proof (rule Cons.IH [OF run])
    fix g assume g: "g \<in> set rest"
    then have "lookup t (fst (templateFilePath e config g)) = lookup s (fst (templateFilePath e config g))"
      by (intro Cons.prems(2)) simp
    then show "lookup ?t1 (fst (templateFilePath e config g)) = lookup s1 (fst (templateFilePath e config g))"
      by (simp add: look_t look_s)
    from g have "is_file (lookup t (?out g))" by (intro Cons.prems(3)) simp
    then show "is_file (lookup ?t1 (?out g))"
      by (simp add: look_t is_file_def)
  qed
  then obtain t' where run': "forEach e config N rest ?t1 = (Completed, t')"
    and look: "\<And>p. lookup t' p = (if p \<in> ?out ` set rest then lookup s' p else lookup ?t1 p)"
    by blast
  have "lookup t' p = (if p \<in> ?out ` set (f # rest) then lookup s' p else lookup t p)" for p
  proof (cases "p \<in> ?out ` set rest")
    case True
    then show ?thesis by (simp add: look)
  next
    case False
    then have "\<forall>g \<in> set rest. p \<noteq> ?out g" by blast
    with run have "lookup s' p = lookup s1 p" by (rule forEach_frame)
    then have s': "lookup s' p = (if p = ?out f then Some (File c') else lookup s p)"
      by (simp add: look_s)
    from False have "lookup t' p = (if p = ?out f then Some (File c') else lookup t p)"
      by (simp add: look look_t)
    with s' False show ?thesis by (cases "p = ?out f") simp_all
  qed
  with rd' cc written' run' show ?case by simp
qed


section \<open>Runs that complete\<close>

lemma createComponent_completes:
  assumes cfg: "readConfig e JSON_parse w = Inr config"
    and made: "mkdirSync (files w) (componentDir e config N) = Inr fs1"
    and listed: "readdirSync fs1 (templateDir e config) = Inr templateFiles"
    and rx: "RegExp_new (COMPONENT_NAME_PLACEHOLDER config) = Some r"
    and rd: "\<And>f. f \<in> set templateFiles \<Longrightarrow>
               readFileSync fs1 (templateFilePath e config f) = Inr (body f)"
    and wr: "\<And>f. f \<in> set templateFiles \<Longrightarrow>
        \<not> snd (componentFilePath e config N f) \<and>
        lookup fs1 (butlast (fst (componentFilePath e config N f))) = Some Dir \<and>
        lookup fs1 (fst (componentFilePath e config N f)) \<noteq> Some Dir"
    and apart: "\<And>f g. f \<in> set templateFiles \<Longrightarrow> g \<in> set templateFiles \<Longrightarrow>
        fst (componentFilePath e config N f) \<noteq> fst (templateFilePath e config g)"
    and inj: "inj_on (\<lambda>f. fst (componentFilePath e config N f)) (set templateFiles)"
  shows "fst (createComponent e JSON_parse N w) = Completed"
    and "f \<in> set templateFiles \<Longrightarrow>
         lookup (files (snd (createComponent e JSON_parse N w)))
           (fst (componentFilePath e config N f)) = Some (File (RegExp_replace (body f) r N))"
    and "lookup fs1 p = Some Dir \<Longrightarrow>
         lookup (files (snd (createComponent e JSON_parse N w))) p = Some Dir"
proof -
  from forEach_completes [of config r templateFiles fs1 e body N, OF rx rd wr apart inj]
  obtain fs2 where run: "forEach e config N templateFiles fs1 = (Completed, fs2)"
    and out: "\<forall>f \<in> set templateFiles. lookup fs2 (fst (componentFilePath e config N f)) =
          Some (File (RegExp_replace (body f) r N))"
    by blast
  from cfg made listed run
  have result: "createComponent e JSON_parse N w =
      (Completed, w\<lparr>files := fs2, console := console w @ [CreatedSuccessfully N]\<rparr>)"
    by (simp add: createComponent_def)
  then show "fst (createComponent e JSON_parse N w) = Completed" by simp
  from result out show "f \<in> set templateFiles \<Longrightarrow>
         lookup (files (snd (createComponent e JSON_parse N w)))
           (fst (componentFilePath e config N f)) = Some (File (RegExp_replace (body f) r N))"
    by simp
  from result forEach_keeps_dirs [OF run, of p]
  show "lookup fs1 p = Some Dir \<Longrightarrow>
         lookup (files (snd (createComponent e JSON_parse N w))) p = Some Dir"
    by simp
qed


section \<open>Content substitution (claim C1)\<close>

text \<open>
  Claim C1. The claim: the content written is the template content with every occurrence of
  the placeholder replaced by the component name. The code compiles the placeholder as a
  regular expression, so with the placeholder \<open>COMPONENT.NAME\<close> the text
  \<open>COMPONENT_NAME\<close>, which is no occurrence of the placeholder, is replaced as well:
  the run below writes \<open>Button and Button\<close> where replacing every occurrence gives
  \<open>Button and COMPONENT_NAME\<close>.
\<close>

theorem content_pattern_is_regular_expression:
  "createComponent demo_env (\<lambda>configFile. Some dotted_config) ''Button''
     (project_with [(''index.js'', ''COMPONENT.NAME and COMPONENT_NAME'')]) =
   (Completed,
    \<lparr>files = files (project_with [(''index.js'', ''COMPONENT.NAME and COMPONENT_NAME'')]) @
       [([''home'', ''project'', ''src''], Dir),
        ([''home'', ''project'', ''src'', ''components''], Dir),
        ([''home'', ''project'', ''src'', ''components'', ''Button''], Dir),
        ([''home'', ''project'', ''src'', ''components'', ''Button'', ''index.js''],
         File ''Button and Button'')],
     console = [CreatedSuccessfully ''Button'']\<rparr>)
   \<and> replace_every ''COMPONENT.NAME'' ''Button'' ''COMPONENT.NAME and COMPONENT_NAME'' =
       ''Button and COMPONENT_NAME''"
  by code_simp

section \<open>File name substitution (claim C2)\<close>

text \<open>
  Claim C2. The claim: the output file name is the entry name with every occurrence of the
  placeholder replaced. The code calls \<open>replace\<close> with a string pattern, which replaces
  the first occurrence only: the entry \<open>COMPONENT_NAME.COMPONENT_NAME.js\<close> is written
  as \<open>Button.COMPONENT_NAME.js\<close>, where replacing every occurrence gives
  \<open>Button.Button.js\<close>.
\<close>

theorem file_name_first_occurrence_only:
  "createComponent demo_env demo_parse ''Button''
     (project_with [(''COMPONENT_NAME.COMPONENT_NAME.js'', ''COMPONENT_NAME'')]) =
   (Completed,
    \<lparr>files = files (project_with [(''COMPONENT_NAME.COMPONENT_NAME.js'', ''COMPONENT_NAME'')]) @
       [([''home'', ''project'', ''src''], Dir),
        ([''home'', ''project'', ''src'', ''components''], Dir),
        ([''home'', ''project'', ''src'', ''components'', ''Button''], Dir),
        ([''home'', ''project'', ''src'', ''components'', ''Button'', ''Button.COMPONENT_NAME.js''],
         File ''Button'')],
     console = [CreatedSuccessfully ''Button'']\<rparr>)
   \<and> replace_every ''COMPONENT_NAME'' ''Button'' ''COMPONENT_NAME.COMPONENT_NAME.js'' =
       ''Button.Button.js''"
  by code_simp

section \<open>Configuration failures (claim C3)\<close>

text \<open>
  Claim C3. When the configuration file is absent, or is present and \<open>JSON.parse\<close>
  rejects its content, the program exits with status 1 after printing the prompt and then
  the message of that failure (the remediation text when the file is absent, the parse
  error otherwise), and the file system is as it was: no directory has been created.
\<close>

theorem config_failure_exits:
  assumes "\<not> existsSync (files w) (configPath e) \<or>
           (\<exists>configFile. readFileSync (files w) (configPath e) = Inr configFile \<and>
                          JSON_parse configFile = None)"
  shows "main e JSON_parse input w =
           (Exited 1,
            w\<lparr>console := console w @
                 [Prompt,
                  if existsSync (files w) (configPath e) then ErrorReadingConfig SyntaxError
                  else ConfigFileNotFound]\<rparr>)
         \<and> files (snd (main e JSON_parse input w)) = files w"
  using assms by (auto simp: main_def createComponent_def readConfig_def)

theorem config_failure_exits_witness:
  "\<not> existsSync (files unconfigured_world) (configPath demo_env)
   \<and> main demo_env demo_parse ''Button'' unconfigured_world =
       (Exited 1, unconfigured_world\<lparr>console := [Prompt, ConfigFileNotFound]\<rparr>)
   \<and> readFileSync (files misconfigured_world) (configPath demo_env) = Inr ''{''
   \<and> demo_parse ''{'' = None
   \<and> main demo_env demo_parse ''Button'' misconfigured_world =
       (Exited 1, misconfigured_world\<lparr>console := [Prompt, ErrorReadingConfig SyntaxError]\<rparr>)
   \<and> files (snd (main demo_env demo_parse ''Button'' misconfigured_world)) =
       files misconfigured_world"
proof -
  have absent: "\<not> existsSync (files unconfigured_world) (configPath demo_env)"
    by code_simp
  have present: "existsSync (files misconfigured_world) (configPath demo_env)"
    by code_simp
  have broken: "readFileSync (files misconfigured_world) (configPath demo_env) = Inr ''{''"
    by code_simp
  have rejected: "demo_parse ''{'' = None"
    by code_simp
  have empty: "console unconfigured_world = []" "console misconfigured_world = []"
    by (simp_all add: unconfigured_world_def misconfigured_world_def)
  from absent have first:
    "main demo_env demo_parse ''Button'' unconfigured_world =
       (Exited 1, unconfigured_world\<lparr>console := [Prompt, ConfigFileNotFound]\<rparr>)"
    using config_failure_exits [of unconfigured_world demo_env demo_parse "''Button''"]
    by (simp add: empty)
  from broken rejected have
    "\<exists>configFile. readFileSync (files misconfigured_world) (configPath demo_env) = Inr configFile \<and>
                   demo_parse configFile = None"
    by blast
  then have second:
    "main demo_env demo_parse ''Button'' misconfigured_world =
       (Exited 1, misconfigured_world\<lparr>console := [Prompt, ErrorReadingConfig SyntaxError]\<rparr>)
     \<and> files (snd (main demo_env demo_parse ''Button'' misconfigured_world)) =
       files misconfigured_world"
    using config_failure_exits [of misconfigured_world demo_env demo_parse "''Button''"] present
    by (simp add: empty)
  from absent first broken rejected second show ?thesis by blast
qed

section \<open>The component name as replacement (claim C4)\<close>

text \<open>
  Claim C4. The claim: the component name is substituted as it is, also when it holds a
  dollar sign. The code passes the name as a replacement string, in which \<open>$$\<close>
  stands for one dollar sign: for the name \<open>$$\<close> the directory is \<open>$$\<close>, but
  the file in it is \<open>$.js\<close> and its content names \<open>$\<close>.
\<close>

theorem dollar_name_is_expanded:
  "createComponent demo_env demo_parse ''$$'' demo_world =
   (Completed,
    \<lparr>files = demo_fs @
       [([''home'', ''project'', ''src''], Dir),
        ([''home'', ''project'', ''src'', ''components''], Dir),
        ([''home'', ''project'', ''src'', ''components'', ''$$''], Dir),
        ([''home'', ''project'', ''src'', ''components'', ''$$'', ''$.js''],
         File ''export const $ = () => {};'')],
     console = [CreatedSuccessfully ''$$'']\<rparr>)"
  by code_simp

section \<open>The scenario of the specification (claim C5)\<close>

text \<open>
  Claim C5. Let the configuration file parse to the configuration of the scenario, let the
  template directory hold the single entry \<open>COMPONENT_NAME.js\<close> with the body
  \<open>export const COMPONENT_NAME = () => {};\<close>, and let nothing stand in the way of the
  output (no file along \<open>src/components/Button\<close>, no directory at
  \<open>Button.js\<close> in it). Then the program, given the input \<open>Button\<close>, runs to
  the end and leaves the file \<open>src/components/Button/Button.js\<close>, under the
  directory of the script, containing \<open>export const Button = () => {};\<close>.
\<close>

theorem scenario:
  assumes config: "readFileSync (files w) (configPath e) = Inr configFile"
      "JSON_parse configFile = Some demo_config"
    and listing: "readdirSync (files w) (dirname e @ [''template''], False) = Inr [''COMPONENT_NAME.js'']"
    and body: "readFileSync (files w) (dirname e @ [''template'', ''COMPONENT_NAME.js''], False) =
                 Inr ''export const COMPONENT_NAME = () => {};''"
    and dirs: "\<forall>q \<in> set (prefixes (dirname e @ [''src'', ''components'', ''Button''])).
                 \<not> is_file (lookup (files w) q)"
    and target: "lookup (files w) (dirname e @ [''src'', ''components'', ''Button'', ''Button.js'']) \<noteq> Some Dir"
  shows "fst (main e JSON_parse ''Button'' w) = Completed
       \<and> lookup (files (snd (main e JSON_parse ''Button'' w)))
            (dirname e @ [''src'', ''components'', ''Button'', ''Button.js'']) =
           Some (File ''export const Button = () => {};'')"
proof -
  let ?w = "w\<lparr>console := console w @ [Prompt]\<rparr>"
  let ?CD = "dirname e @ [''src'', ''components'', ''Button'']"
  let ?T = "dirname e @ [''template'']"
  let ?r = "map Lit ''COMPONENT_NAME''"
  let ?body = "\<lambda>f :: string. ''export const COMPONENT_NAME = () => {};''"
  have cd: "componentDir e demo_config ''Button'' = (?CD, False)"
    by (simp add: componentDir_def path_join_def demo_config_def)
  have td: "templateDir e demo_config = (?T, False)"
    by (simp add: templateDir_def path_join_def demo_config_def)
  have tp: "templateFilePath e demo_config ''COMPONENT_NAME.js'' = (?T @ [''COMPONENT_NAME.js''], False)"
    by (simp add: templateFilePath_def td path_join_def)
  have name: "componentFileName demo_config ''Button'' ''COMPONENT_NAME.js'' = ''Button.js''"
    by code_simp
  have out: "componentFilePath e demo_config ''Button'' ''COMPONENT_NAME.js'' = (?CD @ [''Button.js''], False)"
    by (simp add: componentFilePath_def cd name path_join_def)
  have rx: "RegExp_new (COMPONENT_NAME_PLACEHOLDER demo_config) = Some ?r"
    by code_simp
  have content: "RegExp_replace ''export const COMPONENT_NAME = () => {};'' ?r ''Button'' =
      ''export const Button = () => {};''"
    by code_simp
  from config(1) have "existsSync (files w) (configPath e)"
    by (simp add: existsSync_def readFileSync_Inr_iff)
  with config have cfg: "readConfig e JSON_parse ?w = Inr demo_config"
    by (simp add: readConfig_def)
  from dirs obtain fs1 where made: "mkdirSync (files ?w) (componentDir e demo_config ''Button'') = Inr fs1"
    using mkdirSync_succeeds [of "(?CD, False)" "files w"] by (auto simp: cd)
  then have mk: "mkdir_p (files w) [] ?CD = Inr fs1"
    by (simp add: mkdirSync_def cd)
  have kept: "lookup fs1 p = Some n" if "lookup (files w) p = Some n" for p n
    using mk that by (rule mkdir_p_extends)
  have "children fs1 ?T = children (files w) ?T"
  proof (rule mkdir_p_children [OF mk])
    fix q assume q: "prefix q ?CD"
    show "[] @ butlast q \<noteq> ?T \<or> q = []"
    proof (rule ccontr)
      assume "\<not> ([] @ butlast q \<noteq> ?T \<or> q = [])"
      then have "q = ?T @ [last q]" by (metis append_Nil append_butlast_last_id)
      with q have "prefix (dirname e @ [''template'', last q]) ?CD" by simp
      then show False by simp
    qed
  qed
  moreover from listing have "lookup (files w) ?T = Some Dir"
      and "children (files w) ?T = [''COMPONENT_NAME.js'']"
    by (auto simp: readdirSync_def split: option.splits node.splits)
  ultimately have listed: "readdirSync fs1 (templateDir e demo_config) = Inr [''COMPONENT_NAME.js'']"
    by (simp add: readdirSync_def td kept)
  from body have rd: "readFileSync fs1 (templateFilePath e demo_config f) = Inr (?body f)"
    if "f \<in> set [''COMPONENT_NAME.js'']" for f
    using that by (auto simp: readFileSync_Inr_iff tp kept)
  have dir: "lookup fs1 ?CD = Some Dir"
    using mkdirSync_creates [OF made] by (simp add: cd)
  have "lookup fs1 (?CD @ [''Button.js'']) \<noteq> Some Dir"
    using mkdir_p_lookup [OF mk, of "?CD @ [''Button.js'']"] target by auto
  with dir have wr: "\<not> snd (componentFilePath e demo_config ''Button'' f) \<and>
        lookup fs1 (butlast (fst (componentFilePath e demo_config ''Button'' f))) = Some Dir \<and>
        lookup fs1 (fst (componentFilePath e demo_config ''Button'' f)) \<noteq> Some Dir"
    if "f \<in> set [''COMPONENT_NAME.js'']" for f
    using that by (simp add: out butlast_append)
  have ap: "fst (componentFilePath e demo_config ''Button'' f) \<noteq> fst (templateFilePath e demo_config g)"
    if "f \<in> set [''COMPONENT_NAME.js'']" "g \<in> set [''COMPONENT_NAME.js'']" for f g
    using that by (simp add: out tp)
  have inj: "inj_on (\<lambda>f. fst (componentFilePath e demo_config ''Button'' f)) (set [''COMPONENT_NAME.js''])"
    by simp
  note run = createComponent_completes [of e JSON_parse ?w demo_config "''Button''" fs1
      "[''COMPONENT_NAME.js'']" ?r ?body, OF cfg made listed rx rd wr ap inj]
  from run(1) have "fst (main e JSON_parse ''Button'' w) = Completed"
    by (simp add: main_def)
  moreover from run(2) [of "''COMPONENT_NAME.js''"]
  have "lookup (files (snd (main e JSON_parse ''Button'' w))) (?CD @ [''Button.js'']) =
           Some (File ''export const Button = () => {};'')"
    using content by (simp add: main_def out)
  ultimately show ?thesis by simp
qed

theorem scenario_witness:
  "readFileSync (files demo_world) (configPath demo_env) = Inr demo_json
   \<and> demo_parse demo_json = Some demo_config
   \<and> readdirSync (files demo_world) (dirname demo_env @ [''template''], False) = Inr [''COMPONENT_NAME.js'']
   \<and> readFileSync (files demo_world) (dirname demo_env @ [''template'', ''COMPONENT_NAME.js''], False) =
        Inr ''export const COMPONENT_NAME = () => {};''
   \<and> lookup (files demo_world) (dirname demo_env @ [''src'', ''components'', ''Button'', ''Button.js'']) = None
   \<and> fst (main demo_env demo_parse ''Button'' demo_world) = Completed
   \<and> lookup (files (snd (main demo_env demo_parse ''Button'' demo_world)))
        [''home'', ''project'', ''src'', ''components'', ''Button'', ''Button.js''] =
       Some (File ''export const Button = () => {};'')"
proof -
  have config: "readFileSync (files demo_world) (configPath demo_env) = Inr demo_json"
    by code_simp
  have parsed: "demo_parse demo_json = Some demo_config"
    by (simp add: demo_parse_def)
  have listing: "readdirSync (files demo_world) (dirname demo_env @ [''template''], False) =
      Inr [''COMPONENT_NAME.js'']"
    by code_simp
  have body: "readFileSync (files demo_world) (dirname demo_env @ [''template'', ''COMPONENT_NAME.js''], False) =
        Inr ''export const COMPONENT_NAME = () => {};''"
    by code_simp
  have dirs: "\<forall>q \<in> set (prefixes (dirname demo_env @ [''src'', ''components'', ''Button''])).
                 \<not> is_file (lookup (files demo_world) q)"
    by code_simp
  have absent: "lookup (files demo_world) (dirname demo_env @ [''src'', ''components'', ''Button'', ''Button.js'']) = None"
    by code_simp
  then have target: "lookup (files demo_world) (dirname demo_env @ [''src'', ''components'', ''Button'', ''Button.js'']) \<noteq> Some Dir"
    by simp
  have here: "dirname demo_env = [''home'', ''project'']" by (simp add: demo_env_def)
  note run = scenario [where JSON_parse = demo_parse, OF config parsed listing body dirs target]
  from run [THEN conjunct2]
  have written: "lookup (files (snd (main demo_env demo_parse ''Button'' demo_world)))
        [''home'', ''project'', ''src'', ''components'', ''Button'', ''Button.js''] =
       Some (File ''export const Button = () => {};'')"
    by (simp add: here)
  from config parsed listing body absent run [THEN conjunct1] written show ?thesis by blast
qed

section \<open>Running twice (claim C6)\<close>

text \<open>
  Claim C6. Let a first run complete, and let a second run start from the world it left,
  with the same component name, the same configuration, and a template directory that
  lists the same entries holding the same as when the first run listed it. Then the second
  run completes, computes the same output paths, and leaves every path of the file system
  holding exactly what it held after the first run: each output file is overwritten with
  the content it already had.
\<close>

theorem second_run_identical:
  assumes first: "createComponent e JSON_parse N w = (Completed, w')"
    and cfg: "readConfig e JSON_parse w = Inr config"
    and made: "mkdirSync (files w) (componentDir e config N) = Inr fs_made"
    and same_config: "readConfig e JSON_parse w' = Inr config"
    and unchanged: "template_snapshot e config (files w') = template_snapshot e config fs_made"
  shows "fst (createComponent e JSON_parse N w') = Completed
       \<and> outputPaths e JSON_parse N w' = outputPaths e JSON_parse N w
       \<and> (\<forall>p. lookup (files (snd (createComponent e JSON_parse N w'))) p = lookup (files w') p)"
proof -
  let ?T = "templateDir e config"
  from first cfg made obtain templateFiles
    where listed: "readdirSync fs_made ?T = Inr templateFiles"
      and run: "forEach e config N templateFiles fs_made = (Completed, files w')"
    by (auto simp: createComponent_def split: sum.splits prod.splits if_splits)
  from listed have kids: "templateFiles = children fs_made (fst ?T)"
    by (auto simp: readdirSync_def split: option.splits node.splits)
  from unchanged listed have listed': "readdirSync (files w') ?T = Inr templateFiles"
    by (simp add: template_snapshot_def)
  then have "templateFiles = children (files w') (fst ?T)"
    by (auto simp: readdirSync_def split: option.splits node.splits)
  with unchanged kids
  have "map (\<lambda>f. lookup (files w') (fst (templateFilePath e config f))) templateFiles =
        map (\<lambda>f. lookup fs_made (fst (templateFilePath e config f))) templateFiles"
    by (simp add: template_snapshot_def)
  then have same: "lookup (files w') (fst (templateFilePath e config f)) =
      lookup fs_made (fst (templateFilePath e config f))"
    if "f \<in> set templateFiles" for f
    using that by simp
  have again: "mkdirSync (files w') (componentDir e config N) = Inr (files w')"
    unfolding mkdirSync_def
  proof (rule mkdir_p_again)
    show "mkdir_p (files w) [] (fst (componentDir e config N)) = Inr fs_made"
      using made by (simp add: mkdirSync_def)
    show "lookup (files w) [] = Some Dir" by (simp add: lookup_def)
    show "lookup (files w') p = Some Dir" if "lookup fs_made p = Some Dir" for p
      using forEach_keeps_dirs [OF run, of p] that by simp
  qed
  from forEach_again [OF run same forEach_written [OF run]]
  obtain t' where run': "forEach e config N templateFiles (files w') = (Completed, t')"
    and look: "\<forall>p. lookup t' p =
        (if p \<in> (\<lambda>f. fst (componentFilePath e config N f)) ` set templateFiles
         then lookup (files w') p else lookup (files w') p)"
    by blast
  from same_config again listed' run'
  have "createComponent e JSON_parse N w' =
      (Completed, w'\<lparr>files := t', console := console w' @ [CreatedSuccessfully N]\<rparr>)"
    by (simp add: createComponent_def)
  moreover from cfg made listed same_config again listed'
  have "outputPaths e JSON_parse N w' = outputPaths e JSON_parse N w"
    by (simp add: outputPaths_def)
  ultimately show ?thesis using look by simp
qed

theorem second_run_identical_witness:
  "createComponent demo_env demo_parse ''Button'' demo_world = (Completed, built_world)
   \<and> readConfig demo_env demo_parse demo_world = Inr demo_config
   \<and> readConfig demo_env demo_parse built_world = Inr demo_config
   \<and> template_snapshot demo_env demo_config (files built_world) =
       template_snapshot demo_env demo_config demo_fs1
   \<and> fst (createComponent demo_env demo_parse ''Button'' built_world) = Completed
   \<and> outputPaths demo_env demo_parse ''Button'' built_world =
       [[''home'', ''project'', ''src'', ''components'', ''Button'', ''Button.js'']]
   \<and> lookup (files (snd (createComponent demo_env demo_parse ''Button'' built_world)))
        [''home'', ''project'', ''src'', ''components'', ''Button'', ''Button.js''] =
       Some (File ''export const Button = () => {};'')"
proof -
  have first: "createComponent demo_env demo_parse ''Button'' demo_world = (Completed, built_world)"
    by code_simp
  have cfg: "readConfig demo_env demo_parse demo_world = Inr demo_config"
    by code_simp
  have made: "mkdirSync (files demo_world) (componentDir demo_env demo_config ''Button'') = Inr demo_fs1"
    by code_simp
  have same_config: "readConfig demo_env demo_parse built_world = Inr demo_config"
    by code_simp
  have unchanged: "template_snapshot demo_env demo_config (files built_world) =
       template_snapshot demo_env demo_config demo_fs1"
    by code_simp
  have paths: "outputPaths demo_env demo_parse ''Button'' demo_world =
       [[''home'', ''project'', ''src'', ''components'', ''Button'', ''Button.js'']]"
    by code_simp
  have held: "lookup (files built_world)
        [''home'', ''project'', ''src'', ''components'', ''Button'', ''Button.js''] =
       Some (File ''export const Button = () => {};'')"
    by code_simp
  note again = second_run_identical [OF first cfg made same_config unchanged]
  from again have completed: "fst (createComponent demo_env demo_parse ''Button'' built_world) = Completed"
    by (rule conjunct1)
  from again paths have paths': "outputPaths demo_env demo_parse ''Button'' built_world =
       [[''home'', ''project'', ''src'', ''components'', ''Button'', ''Button.js'']]"
    by simp
  from again held have written: "lookup (files (snd (createComponent demo_env demo_parse ''Button'' built_world)))
        [''home'', ''project'', ''src'', ''components'', ''Button'', ''Button.js''] =
       Some (File ''export const Button = () => {};'')"
    by simp
  from first cfg same_config unchanged completed paths' written show ?thesis by blast
qed

section \<open>Files the run does not write (claim C7)\<close>

text \<open>
  Claim C7. A path that is none of the output paths the run computes keeps what it held:
  an existing file keeps its content and an existing directory stays, whether the run
  completes or stops; a path that held nothing holds nothing afterwards, or a directory
  that \<open>mkdirSync\<close> created. So the run only creates or overwrites the files derived
  from the template entries.
\<close>

theorem unrelated_files_untouched:
  assumes "q \<notin> set (outputPaths e JSON_parse componentName w)"
  shows "(lookup (files w) q \<noteq> None \<longrightarrow>
            lookup (files (snd (createComponent e JSON_parse componentName w))) q = lookup (files w) q)
       \<and> (lookup (files w) q = None \<longrightarrow>
            lookup (files (snd (createComponent e JSON_parse componentName w))) q = None \<or>
            lookup (files (snd (createComponent e JSON_parse componentName w))) q = Some Dir)"
proof -
  let ?after = "files (snd (createComponent e JSON_parse componentName w))"
  have "lookup ?after q = lookup (files w) q \<or> (lookup (files w) q = None \<and> lookup ?after q = Some Dir)"
  proof (cases "readConfig e JSON_parse w")
    case (Inl w')
    then have "files w' = files w"
      by (auto simp: readConfig_def split: if_splits sum.splits option.splits)
    with Inl show ?thesis by (simp add: createComponent_def)
  next
    case cfg: (Inr config)
    show ?thesis
    proof (cases "mkdirSync (files w) (componentDir e config componentName)")
      case (Inl err)
      with cfg show ?thesis by (simp add: createComponent_def)
    next
      case made: (Inr fs1)
      then have dirs: "lookup fs1 q = lookup (files w) q \<or> (lookup (files w) q = None \<and> lookup fs1 q = Some Dir)"
        using mkdir_p_lookup [of "files w" "[]" _ fs1 q] by (auto simp: mkdirSync_def)
      show ?thesis
      proof (cases "readdirSync fs1 (templateDir e config)")
        case (Inl err)
        with cfg made dirs show ?thesis by (simp add: createComponent_def)
      next
        case listed: (Inr templateFiles)
        obtain st fs2 where run: "forEach e config componentName templateFiles fs1 = (st, fs2)"
          by (cases "forEach e config componentName templateFiles fs1")
        from assms cfg made listed
        have "\<forall>f \<in> set templateFiles. q \<noteq> fst (componentFilePath e config componentName f)"
          by (auto simp: outputPaths_def)
        with run have "lookup fs2 q = lookup fs1 q" by (rule forEach_frame)
        moreover from cfg made listed run have "?after = fs2"
          by (simp add: createComponent_def)
        ultimately show ?thesis using dirs by simp
      qed
    qed
  qed
  then show ?thesis by auto
qed

theorem unrelated_files_untouched_witness:
  "[''home'', ''project'', ''src'', ''components'', ''Button'', ''notes.txt'']
     \<notin> set (outputPaths demo_env demo_parse ''Button'' populated_world)
   \<and> lookup (files populated_world)
        [''home'', ''project'', ''src'', ''components'', ''Button'', ''notes.txt''] = Some (File ''keep me'')
   \<and> lookup (files (snd (createComponent demo_env demo_parse ''Button'' populated_world)))
        [''home'', ''project'', ''src'', ''components'', ''Button'', ''notes.txt''] = Some (File ''keep me'')
   \<and> lookup (files (snd (createComponent demo_env demo_parse ''Button'' populated_world)))
        [''home'', ''project'', ''src'', ''components'', ''Button'', ''Button.js''] =
        Some (File ''export const Button = () => {};'')"
proof -
  let ?q = "[''home'', ''project'', ''src'', ''components'', ''Button'', ''notes.txt'']"
  have out: "?q \<notin> set (outputPaths demo_env demo_parse ''Button'' populated_world)"
    by code_simp
  have before: "lookup (files populated_world) ?q = Some (File ''keep me'')"
    by code_simp
  have written: "lookup (files (snd (createComponent demo_env demo_parse ''Button'' populated_world)))
        [''home'', ''project'', ''src'', ''components'', ''Button'', ''Button.js''] =
        Some (File ''export const Button = () => {};'')"
    by code_simp
  from unrelated_files_untouched [OF out] before
  have "lookup (files (snd (createComponent demo_env demo_parse ''Button'' populated_world))) ?q =
        Some (File ''keep me'')"
    by simp
  with out before written show ?thesis by blast
qed

section \<open>The empty placeholder (claim C8)\<close>

text \<open>
  Claim C8, amended. With the empty string as placeholder and a component name in which no
  dollar sign is followed by a dollar sign, an ampersand, a backquote or a quote, the
  output file name is the component name prepended to the entry name, and the output
  content is the component name inserted before every character of the template content
  and once at its end. The run completes and writes these files when the name has no
  separator, the file system is well formed, the configuration loads, the directories can
  be created, every listed entry is a readable file, no output path is a directory, and
  the component directory is not the template directory.
\<close>

theorem empty_placeholder:
  assumes empty: "COMPONENT_NAME_PLACEHOLDER config = []"
    and plain: "plain_replacement N"
  shows "componentFileName config N entry = N @ entry
       \<and> componentContent config N content = Some (inserted_everywhere N content)
       \<and> (wf_fs (files w) \<and> list_all valid_name (dirname e) \<and> CHR ''/'' \<notin> set N \<and>
          readConfig e JSON_parse w = Inr config \<and>
          mkdirSync (files w) (componentDir e config N) = Inr fs_made \<and>
          readdirSync fs_made (templateDir e config) = Inr templateFiles \<and>
          (\<forall>f \<in> set templateFiles.
             readFileSync fs_made (templateFilePath e config f) = Inr (body f) \<and>
             lookup fs_made (fst (componentDir e config N) @ [N @ f]) \<noteq> Some Dir) \<and>
          fst (componentDir e config N) \<noteq> fst (templateDir e config)
          \<longrightarrow> fst (createComponent e JSON_parse N w) = Completed \<and>
              (\<forall>f \<in> set templateFiles.
                 lookup (files (snd (createComponent e JSON_parse N w)))
                   (fst (componentDir e config N) @ [N @ f]) =
                 Some (File (inserted_everywhere N (body f)))))"
proof (intro conjI impI)
  show name: "componentFileName config N entry = N @ entry" for entry
    by (simp add: componentFileName_def empty String_replace_empty plain)
  show "componentContent config N content = Some (inserted_everywhere N content)"
    by (simp add: componentContent_def empty RegExp_replace_empty plain)
  assume hyps: "wf_fs (files w) \<and> list_all valid_name (dirname e) \<and> CHR ''/'' \<notin> set N \<and>
          readConfig e JSON_parse w = Inr config \<and>
          mkdirSync (files w) (componentDir e config N) = Inr fs_made \<and>
          readdirSync fs_made (templateDir e config) = Inr templateFiles \<and>
          (\<forall>f \<in> set templateFiles.
             readFileSync fs_made (templateFilePath e config f) = Inr (body f) \<and>
             lookup fs_made (fst (componentDir e config N) @ [N @ f]) \<noteq> Some Dir) \<and>
          fst (componentDir e config N) \<noteq> fst (templateDir e config)"
  let ?CD = "componentDir e config N"
  from hyps have made: "mkdirSync (files w) ?CD = Inr fs_made"
    and listed: "readdirSync fs_made (templateDir e config) = Inr templateFiles"
    and cfg: "readConfig e JSON_parse w = Inr config"
    and sep: "CHR ''/'' \<notin> set N"
    and apart: "fst ?CD \<noteq> fst (templateDir e config)"
    by simp_all
  from hyps have "wf_fs fs_made"
    by (auto intro: mkdirSync_wf [OF _ componentDir_valid])
  then have valid: "valid_name f" if "f \<in> set templateFiles" for f
    using listed that by (rule listed_names_valid)
  have out: "componentFilePath e config N f = (fst ?CD @ [N @ f], False)"
    if "f \<in> set templateFiles" for f
    using valid [OF that] sep
    by (simp add: componentFilePath_def name path_join_valid_name valid_name_prepend)
  have dir: "lookup fs_made (fst ?CD) = Some Dir"
    using made by (rule mkdirSync_creates)
  have rx: "RegExp_new (COMPONENT_NAME_PLACEHOLDER config) = Some []"
    by (simp add: empty)
  have rd: "readFileSync fs_made (templateFilePath e config f) = Inr (body f)"
    if "f \<in> set templateFiles" for f
    using hyps that by simp
  have wr: "\<not> snd (componentFilePath e config N f) \<and>
        lookup fs_made (butlast (fst (componentFilePath e config N f))) = Some Dir \<and>
        lookup fs_made (fst (componentFilePath e config N f)) \<noteq> Some Dir"
    if "f \<in> set templateFiles" for f
    using hyps that dir by (simp add: out)
  have ap: "fst (componentFilePath e config N f) \<noteq> fst (templateFilePath e config g)"
    if "f \<in> set templateFiles" "g \<in> set templateFiles" for f g
    using that apart by (simp add: out templateFilePath_valid valid)
  have inj: "inj_on (\<lambda>f. fst (componentFilePath e config N f)) (set templateFiles)"
    by (rule inj_onI) (simp add: out)
  note run = createComponent_completes [of e JSON_parse w config N fs_made templateFiles "[]" body,
      OF cfg made listed rx rd wr ap inj]
  show "fst (createComponent e JSON_parse N w) = Completed" by (rule run(1))
  show "\<forall>f \<in> set templateFiles.
          lookup (files (snd (createComponent e JSON_parse N w))) (fst ?CD @ [N @ f]) =
          Some (File (inserted_everywhere N (body f)))"
    using run(2) by (simp add: out RegExp_replace_empty plain)
qed

theorem empty_placeholder_witness:
  "COMPONENT_NAME_PLACEHOLDER unmarked_config = []
   \<and> plain_replacement ''Button''
   \<and> componentFileName unmarked_config ''Button'' ''COMPONENT_NAME.js'' = ''ButtonCOMPONENT_NAME.js''
   \<and> componentContent unmarked_config ''Button'' ''abc'' = Some ''ButtonaButtonbButtoncButton''
   \<and> wf_fs (files demo_world)
   \<and> readConfig demo_env (\<lambda>configFile. Some unmarked_config) demo_world = Inr unmarked_config
   \<and> mkdirSync (files demo_world) (componentDir demo_env unmarked_config ''Button'') = Inr demo_fs1
   \<and> readdirSync demo_fs1 (templateDir demo_env unmarked_config) = Inr [''COMPONENT_NAME.js'']
   \<and> fst (createComponent demo_env (\<lambda>configFile. Some unmarked_config) ''Button'' demo_world) = Completed
   \<and> lookup (files (snd (createComponent demo_env (\<lambda>configFile. Some unmarked_config) ''Button'' demo_world)))
        [''home'', ''project'', ''src'', ''components'', ''Button'', ''ButtonCOMPONENT_NAME.js''] =
       Some (File (inserted_everywhere ''Button'' demo_template))"
proof -
  let ?JP = "\<lambda>configFile :: string. Some unmarked_config"
  have empty: "COMPONENT_NAME_PLACEHOLDER unmarked_config = []" by code_simp
  have plain: "plain_replacement ''Button''" by code_simp
  have wf: "wf_fs (files demo_world)" by code_simp
  have env: "list_all valid_name (dirname demo_env)" by code_simp
  have sep: "CHR ''/'' \<notin> set ''Button''" by code_simp
  have cfg: "readConfig demo_env ?JP demo_world = Inr unmarked_config" by code_simp
  have made: "mkdirSync (files demo_world) (componentDir demo_env unmarked_config ''Button'') = Inr demo_fs1"
    by code_simp
  have listed: "readdirSync demo_fs1 (templateDir demo_env unmarked_config) = Inr [''COMPONENT_NAME.js'']"
    by code_simp
  have entries: "\<forall>f \<in> set [''COMPONENT_NAME.js''].
      readFileSync demo_fs1 (templateFilePath demo_env unmarked_config f) = Inr ((\<lambda>f. demo_template) f) \<and>
      lookup demo_fs1 (fst (componentDir demo_env unmarked_config ''Button'') @ [''Button'' @ f]) \<noteq> Some Dir"
    by code_simp
  have apart: "fst (componentDir demo_env unmarked_config ''Button'') \<noteq> fst (templateDir demo_env unmarked_config)"
    by code_simp
  have cd: "fst (componentDir demo_env unmarked_config ''Button'') =
      [''home'', ''project'', ''src'', ''components'', ''Button'']"
    by code_simp
  note inst = empty_placeholder [OF empty plain,
      where w = demo_world and e = demo_env and JSON_parse = ?JP and fs_made = demo_fs1
        and templateFiles = "[''COMPONENT_NAME.js'']" and body = "\<lambda>f. demo_template"]
  have name: "componentFileName unmarked_config ''Button'' ''COMPONENT_NAME.js'' = ''ButtonCOMPONENT_NAME.js''"
    using inst [where entry = "''COMPONENT_NAME.js''" and content = "''abc''"] by simp
  have inserted: "inserted_everywhere ''Button'' ''abc'' = ''ButtonaButtonbButtoncButton''"
    by code_simp
  have content: "componentContent unmarked_config ''Button'' ''abc'' = Some ''ButtonaButtonbButtoncButton''"
    using inst [where entry = "''COMPONENT_NAME.js''" and content = "''abc''"] inserted by simp
  have run: "fst (createComponent demo_env ?JP ''Button'' demo_world) = Completed \<and>
      (\<forall>f \<in> set [''COMPONENT_NAME.js''].
         lookup (files (snd (createComponent demo_env ?JP ''Button'' demo_world)))
           (fst (componentDir demo_env unmarked_config ''Button'') @ [''Button'' @ f]) =
         Some (File (inserted_everywhere ''Button'' demo_template)))"
    using inst [where entry = "''COMPONENT_NAME.js''" and content = "''abc''"]
      wf env sep cfg made listed entries apart by blast
  then have written: "lookup (files (snd (createComponent demo_env ?JP ''Button'' demo_world)))
        [''home'', ''project'', ''src'', ''components'', ''Button'', ''ButtonCOMPONENT_NAME.js''] =
       Some (File (inserted_everywhere ''Button'' demo_template))"
    by (simp add: cd)
  from empty plain name content wf cfg made listed run written show ?thesis by blast
qed

text \<open>
  The claim as it stands fails twice. The run does not always succeed: the name
  \<open>a/b\<close> is prepended to the entry name, separator included, and the scenario's
  entry is to be written below a directory \<open>a/b/a\<close> that does not exist. And for a
  name with a dollar pair the content is not the name inserted everywhere: with the name
  \<open>$$\<close> the content of \<open>abc\<close> is \<open>$a$b$c$\<close>, and the entry
  \<open>index.js\<close> is written as \<open>$index.js\<close>.
\<close>

theorem empty_placeholder_counterexample:
  "fst (createComponent demo_env (\<lambda>configFile. Some unmarked_config) ''a/b'' demo_world) =
     Uncaught (SystemError ENOENT)
   \<and> componentFilePath demo_env unmarked_config ''a/b'' ''COMPONENT_NAME.js'' =
       ([''home'', ''project'', ''src'', ''components'', ''a'', ''b'', ''a'', ''bCOMPONENT_NAME.js''],
        False)
   \<and> componentContent unmarked_config ''$$'' ''abc'' = Some ''$a$b$c$''
   \<and> inserted_everywhere ''$$'' ''abc'' = ''$$a$$b$$c$$''
   \<and> componentFileName unmarked_config ''$$'' ''index.js'' = ''$index.js''"
  by code_simp

section \<open>A run that cannot list the template directory (claim C9)\<close>

text \<open>
  A directory that is missing and is not on the way to the component directory is still
  missing after \<open>mkdirSync\<close>, and listing it throws.
\<close>

lemma missing_directory_stays_missing:
  assumes "mkdirSync fs pn = Inr fs'" and "lookup fs q = None" and "\<not> prefix q (fst pn)"
  shows "\<exists>err. readdirSync fs' (q, b) = Inl err"
proof -
  from assms(1) have "mkdir_p fs [] (fst pn) = Inr fs'" by (simp add: mkdirSync_def)
  from mkdir_p_lookup [OF this, of q] assms(2,3) have "lookup fs' q = None" by auto
  then show ?thesis by (simp add: readdirSync_def)
qed

text \<open>
  Claim C9. The component directory is created before the template directory is read: when
  the configuration has loaded, the recursive \<open>mkdirSync\<close> has returned and
  \<open>readdirSync\<close> of the template directory then throws, the run ends with that
  exception uncaught, and the file system it leaves is the one \<open>mkdirSync\<close> produced,
  in which the component directory exists.
\<close>

theorem template_listing_failure_leaves_directory:
  assumes "readConfig e JSON_parse w = Inr config"
    and "mkdirSync (files w) (componentDir e config componentName) = Inr fs1"
    and "readdirSync fs1 (templateDir e config) = Inl err"
  shows "createComponent e JSON_parse componentName w =
           (Uncaught (SystemError err), w\<lparr>files := fs1\<rparr>)
         \<and> lookup (files (snd (createComponent e JSON_parse componentName w)))
              (fst (componentDir e config componentName)) = Some Dir"
  using assms mkdirSync_creates [OF assms(2)] by (simp add: createComponent_def)

theorem template_listing_failure_leaves_directory_witness:
  "readConfig demo_env demo_parse untemplated_world = Inr demo_config
   \<and> mkdirSync (files untemplated_world) (componentDir demo_env demo_config ''Button'') =
       Inr (files untemplated_world @
              [([''home'', ''project'', ''src''], Dir),
               ([''home'', ''project'', ''src'', ''components''], Dir),
               ([''home'', ''project'', ''src'', ''components'', ''Button''], Dir)])
   \<and> lookup (files untemplated_world) (fst (componentDir demo_env demo_config ''Button'')) = None
   \<and> fst (createComponent demo_env demo_parse ''Button'' untemplated_world) =
       Uncaught (SystemError ENOENT)
   \<and> lookup (files (snd (createComponent demo_env demo_parse ''Button'' untemplated_world)))
       (fst (componentDir demo_env demo_config ''Button'')) = Some Dir"
proof -
  let ?fs1 = "files untemplated_world @
              [([''home'', ''project'', ''src''], Dir),
               ([''home'', ''project'', ''src'', ''components''], Dir),
               ([''home'', ''project'', ''src'', ''components'', ''Button''], Dir)]"
  have loaded: "readConfig demo_env demo_parse untemplated_world = Inr demo_config"
    by code_simp
  have made: "mkdirSync (files untemplated_world) (componentDir demo_env demo_config ''Button'') =
       Inr ?fs1"
    by code_simp
  have before: "lookup (files untemplated_world) (fst (componentDir demo_env demo_config ''Button'')) = None"
    by code_simp
  have unlisted: "readdirSync ?fs1 (templateDir demo_env demo_config) = Inl ENOENT"
    by code_simp
  note run = template_listing_failure_leaves_directory [OF loaded made unlisted]
  from run [THEN conjunct1]
  have stopped: "fst (createComponent demo_env demo_parse ''Button'' untemplated_world) =
           Uncaught (SystemError ENOENT)"
    by simp
  from loaded made before stopped run [THEN conjunct2] show ?thesis by blast
qed

section \<open>Component names with a path separator (claim C10)\<close>




end
